theory Spec2Isabelle
  imports Complex_Main "HOL-Library.Sublist"
begin

section \<open>Python values\<close>

text \<open>
  The scripts pass around what \<^verbatim>\<open>response.json()\<close> and \<^verbatim>\<open>json.loads\<close> return: dynamically
  typed values. \<open>JNull\<close> is Python's \<^verbatim>\<open>None\<close>; \<open>JNum\<close> carries a number by its value
  (Python compares \<^verbatim>\<open>int\<close> and \<^verbatim>\<open>float\<close> by value, so \<^verbatim>\<open>200\<close> and \<^verbatim>\<open>200.0\<close> coincide);
  \<open>JObj\<close> is a \<^verbatim>\<open>dict\<close> with string keys, looked up with \<open>map_of\<close>.
\<close>

datatype json =
    JNull
  | JBool bool
  | JNum rat
  | JStr string
  | JArr "json list"
  | JObj "(string \<times> json) list"

text \<open>The exceptions the modelled code can raise; \<open>SystemExit n\<close> is \<^verbatim>\<open>sys.exit(n)\<close>.\<close>

datatype exn = AttributeError | TypeError | KeyError | SystemExit int

text \<open>Truth value of an object, as \<^verbatim>\<open>if x:\<close> and \<^verbatim>\<open>not x\<close> and \<^verbatim>\<open>x or y\<close> test it.\<close>

fun truthy :: "json \<Rightarrow> bool" where
  "truthy JNull = False"
| "truthy (JBool b) = b"
| "truthy (JNum n) = (n \<noteq> 0)"
| "truthy (JStr s) = (s \<noteq> [])"
| "truthy (JArr xs) = (xs \<noteq> [])"
| "truthy (JObj kvs) = (kvs \<noteq> [])"

text \<open>\<^verbatim>\<open>d.get(key, default)\<close>: only a dict has the method.\<close>

fun dict_get :: "json \<Rightarrow> string \<Rightarrow> json \<Rightarrow> exn + json" where
  "dict_get (JObj kvs) k d = Inr (case map_of kvs k of None \<Rightarrow> d | Some v \<Rightarrow> v)"
| "dict_get JNull k d = Inl AttributeError"
| "dict_get (JBool b) k d = Inl AttributeError"
| "dict_get (JNum n) k d = Inl AttributeError"
| "dict_get (JStr s) k d = Inl AttributeError"
| "dict_get (JArr xs) k d = Inl AttributeError"

text \<open>\<^verbatim>\<open>len(x)\<close>: defined on strings, lists and dicts, a \<^verbatim>\<open>TypeError\<close> elsewhere.\<close>

fun py_len :: "json \<Rightarrow> exn + nat" where
  "py_len (JStr s) = Inr (length s)"
| "py_len (JArr xs) = Inr (length xs)"
| "py_len (JObj kvs) = Inr (length kvs)"
| "py_len JNull = Inl TypeError"
| "py_len (JBool b) = Inl TypeError"
| "py_len (JNum n) = Inl TypeError"

section \<open>Observable effects\<close>

text \<open>
  Every function of the scripts is modelled as a pure function that returns, beside its
  result, the list of effects it performed, in order: the status requests it sent, the
  calls of \<^verbatim>\<open>time.sleep\<close> (in seconds) and the lines it printed. A printed line is kept as
  a constructor with the values the f-string formats, not as text; \<open>MsgWaiting\<close> stands
  for the two fixed lines a waiting function prints when it starts.
\<close>

datatype msg =
    MsgWaiting
  | MsgChecking nat
  | MsgCompleted nat
  | MsgGenerated nat
  | MsgNoAudio
  | MsgRawData json
  | MsgFailed json
  | MsgProgress nat json nat
  | MsgUnknownStatus json
  | MsgTimeout int
  | MsgRetrying
  | MsgNetworkError
  | MsgError
  | MsgServerStarted nat
  | MsgCallbackReceived
  | MsgCallbackError string
  | MsgCallbackCompleted
  | MsgWaitingCallback nat nat
  | MsgCallbackTimeout int
  | MsgFirewallTip nat

datatype effect = Request string | Sleep nat | Print msg

fun is_request :: "effect \<Rightarrow> bool" where
  "is_request (Request t) = True"
| "is_request (Sleep d) = False"
| "is_request (Print m) = False"

definition requests :: "effect list \<Rightarrow> nat" where
  "requests tr = length (filter is_request tr)"

fun sleeps :: "effect list \<Rightarrow> nat list" where
  "sleeps [] = []"
| "sleeps (Sleep d # tr) = d # sleeps tr"
| "sleeps (Request t # tr) = sleeps tr"
| "sleeps (Print m # tr) = sleeps tr"

text \<open>Seconds slept in a list of effects, in milliseconds of the model's clock.\<close>

definition slept_ms :: "effect list \<Rightarrow> nat" where
  "slept_ms tr = 1000 * sum_list (sleeps tr)"

section \<open>The environment of a polling run\<close>

text \<open>
  What the try block of \<^verbatim>\<open>get_task_status\<close> meets on one call: the HTTP calls raise a
  \<^verbatim>\<open>requests.exceptions.RequestException\<close>, or they raise something else (a body that is
  not JSON, in versions of the library where that is a \<^verbatim>\<open>ValueError\<close>), or
  \<^verbatim>\<open>response.json()\<close> returns a value.
\<close>

datatype http_result = RequestError | OtherError | Parsed json

text \<open>
  The model's clock counts milliseconds since \<^verbatim>\<open>start_time\<close>. The \<open>i\<close>-th status request
  takes \<open>latency\<close> milliseconds and then yields \<open>reply\<close>; \<^verbatim>\<open>time.sleep(s)\<close> advances
  the clock by \<open>1000 * s\<close>. The environment is total: the remote side answers (or fails to)
  every request that is ever sent.
\<close>

record poll_event =
  latency :: nat
  reply :: http_result

text \<open>A scripted environment: the listed events in order, then \<open>d\<close> for ever.\<close>

definition replay :: "poll_event list \<Rightarrow> poll_event \<Rightarrow> nat \<Rightarrow> poll_event" where
  "replay evs d i = (if i < length evs then evs ! i else d)"

text \<open>What a loop iteration decides: go round again, or leave the function.\<close>

datatype step = Continue | Stop "exn + json"

section \<open>generate\_trap\_polling.py\<close>

text \<open>
  \<^verbatim>\<open>SunoAPIClient.get_task_status\<close>. The bare \<^verbatim>\<open>except:\<close> turns every exception into
  \<^verbatim>\<open>None\<close>, also the \<^verbatim>\<open>AttributeError\<close> of \<^verbatim>\<open>data.get\<close> on a body that is not a dict.
\<close>

fun get_task_status :: "http_result \<Rightarrow> json" where
  "get_task_status (Parsed data) =
     (case dict_get data ''code'' JNull of
        Inl e \<Rightarrow> JNull
      | Inr code \<Rightarrow>
          if code \<noteq> JNum 200 then JNull
          else (case dict_get data ''data'' (JObj []) of Inl e \<Rightarrow> JNull | Inr v \<Rightarrow> v))"
| "get_task_status RequestError = JNull"
| "get_task_status OtherError = JNull"

definition poll_interval :: nat where
  "poll_interval = 10"

text \<open>
  The body of the \<^verbatim>\<open>while\<close> loop of \<^verbatim>\<open>SunoAPIClient.wait_for_completion\<close>, after the call
  of \<^verbatim>\<open>get_task_status\<close>; \<open>elapsed\<close> is \<^verbatim>\<open>int(time.time() - start_time)\<close>.
\<close>

definition loop_body :: "json \<Rightarrow> nat \<Rightarrow> effect list \<times> step" where
  "loop_body status_data elapsed =
     (if \<not> truthy status_data then
        ([Print (MsgChecking elapsed), Sleep poll_interval], Continue)
      else
        (case dict_get status_data ''status'' JNull of
           Inl e \<Rightarrow> ([], Stop (Inl e))
         | Inr status \<Rightarrow>
             if status = JStr ''SUCCESS'' then
               (case dict_get status_data ''response'' (JObj []) of
                  Inl e \<Rightarrow> ([], Stop (Inl e))
                | Inr response_data \<Rightarrow>
                    (case dict_get response_data ''data'' (JArr []) of
                       Inl e \<Rightarrow> ([], Stop (Inl e))
                     | Inr audio_list \<Rightarrow>
                         if truthy audio_list then
                           (case py_len audio_list of
                              Inl e \<Rightarrow> ([Print (MsgCompleted elapsed)], Stop (Inl e))
                            | Inr n \<Rightarrow>
                                ([Print (MsgCompleted elapsed), Print (MsgGenerated n)],
                                 Stop (Inr audio_list)))
                         else
                           ([Print MsgNoAudio, Print (MsgRawData status_data),
                             Sleep poll_interval], Continue)))
             else if status = JStr ''FAILED'' then
               (case dict_get status_data ''errorMessage'' (JStr ''Unknown'') of
                  Inl e \<Rightarrow> ([], Stop (Inl e))
                | Inr error \<Rightarrow> ([Print (MsgFailed error)], Stop (Inl (SystemExit 1))))
             else if status = JStr ''PENDING'' \<or> status = JStr ''GENERATING'' then
               ([Print (MsgProgress elapsed status ((elapsed div 5) mod 4)),
                 Sleep poll_interval], Continue)
             else
               ([Print (MsgUnknownStatus status), Sleep poll_interval], Continue)))"

lemma loop_body_slept:
  "snd (loop_body sd e) = Continue \<longrightarrow> slept_ms (fst (loop_body sd e)) = 10000"
  by (simp add: loop_body_def slept_ms_def poll_interval_def split: sum.split)

text \<open>
  The \<^verbatim>\<open>while time.time() - start_time < max_wait\<close> loop: \<open>i\<close> requests have been sent and
  the clock stands at \<open>t\<close> milliseconds. It terminates because every iteration that goes
  round again has slept.
\<close>

function wait_loop ::
  "string \<Rightarrow> int \<Rightarrow> (nat \<Rightarrow> poll_event) \<Rightarrow> nat \<Rightarrow> nat \<Rightarrow> effect list \<times> (exn + json)" where
  "wait_loop task_id max_wait env i t =
     (if int t < max_wait * 1000 then
        (let t1 = t + latency (env i);
             r = loop_body (get_task_status (reply (env i))) (t1 div 1000)
         in case snd r of
              Stop out \<Rightarrow> (Request task_id # fst r, out)
            | Continue \<Rightarrow>
                (let rest = wait_loop task_id max_wait env (Suc i) (t1 + slept_ms (fst r))
                 in (Request task_id # fst r @ fst rest, snd rest)))
      else ([Print (MsgTimeout max_wait)], Inl (SystemExit 1)))"
  by pat_completeness auto
termination
proof (relation "measure (\<lambda>(task_id, max_wait, env, i, t). nat (max_wait * 1000 - int t))")
  show "wf (measure (\<lambda>(task_id, max_wait, env, i, t). nat (max_wait * 1000 - int t)))"
    by simp
next
  fix task_id :: string and max_wait :: int and env :: "nat \<Rightarrow> poll_event"
    and i t t1 :: nat and r :: "effect list \<times> step"
  assume live: "int t < max_wait * 1000"
    and t1: "t1 = t + latency (env i)"
    and r: "r = loop_body (get_task_status (reply (env i))) (t1 div 1000)"
    and c: "snd r = Continue"
  from r c have "slept_ms (fst r) = 10000"
    using loop_body_slept by blast
  with live t1
  show "((task_id, max_wait, env, Suc i, t1 + slept_ms (fst r)), (task_id, max_wait, env, i, t))
        \<in> measure (\<lambda>(task_id, max_wait, env, i, t). nat (max_wait * 1000 - int t))"
    by simp
qed

declare wait_loop.simps [simp del]

text \<open>\<^verbatim>\<open>SunoAPIClient.wait_for_completion(task_id, max_wait)\<close>; \<^verbatim>\<open>max_wait\<close> defaults to 360.\<close>

definition wait_for_completion ::
  "string \<Rightarrow> int \<Rightarrow> (nat \<Rightarrow> poll_event) \<Rightarrow> effect list \<times> (exn + json)" where
  "wait_for_completion task_id max_wait env =
     (let run = wait_loop task_id max_wait env 0 0 in (Print MsgWaiting # fst run, snd run))"


section \<open>What a status record reports\<close>

text \<open>
  The two terminal reports of the remote side, read off a status record as the loop reads
  it. \<open>success_with sd xs\<close>: the status is \<^verbatim>\<open>SUCCESS\<close> and the artifact list is \<open>xs\<close> (the
  empty list also when \<^verbatim>\<open>response\<close> or its \<^verbatim>\<open>data\<close> is absent, by the defaults of \<^verbatim>\<open>get\<close>).
  \<open>failed_with sd err\<close>: the status is \<^verbatim>\<open>FAILED\<close> and \<open>err\<close> is the \<^verbatim>\<open>errorMessage\<close> field
  (\<^verbatim>\<open>"Unknown"\<close> when the record has none).
\<close>

definition success_with :: "json \<Rightarrow> json list \<Rightarrow> bool" where
  "success_with sd xs \<longleftrightarrow>
     dict_get sd ''status'' JNull = Inr (JStr ''SUCCESS'') \<and>
     (case dict_get sd ''response'' (JObj []) of
        Inl e \<Rightarrow> False
      | Inr resp \<Rightarrow> dict_get resp ''data'' (JArr []) = Inr (JArr xs))"



section \<open>Scenarios\<close>

text \<open>Replies of the status endpoint with API code 200, used to run the model.\<close>

definition status_reply :: "nat \<Rightarrow> (string \<times> json) list \<Rightarrow> poll_event" where
  "status_reply ms kvs =
     \<lparr>latency = ms, reply = Parsed (JObj [(''code'', JNum 200), (''data'', JObj kvs)])\<rparr>"

definition pending :: poll_event where
  "pending = status_reply 0 [(''status'', JStr ''PENDING'')]"

definition success_reply :: "json list \<Rightarrow> poll_event" where
  "success_reply xs =
     status_reply 0 [(''status'', JStr ''SUCCESS''), (''response'', JObj [(''data'', JArr xs)])]"

definition failed_reply :: "string \<Rightarrow> poll_event" where
  "failed_reply m = status_reply 0 [(''status'', JStr ''FAILED''), (''errorMessage'', JStr m)]"

definition track_a :: json where
  "track_a = JObj [(''audio_url'', JStr ''http://x/a.mp3'')]"


text \<open>
  The replies that are not terminal. \<open>query_failed\<close>: \<^verbatim>\<open>get_task_status\<close> has nothing to
  hand to the loop (the request or the JSON decoding raised, the body is not an object,
  its \<^verbatim>\<open>code\<close> is not 200, or its \<^verbatim>\<open>data\<close> is absent or empty). \<open>unmapped_status\<close>: a
  status record whose status is none of the four known strings. \<open>still_waiting\<close>: any
  record on which the remote job is neither failed nor finished with artifacts.
\<close>

definition query_failed :: "http_result \<Rightarrow> bool" where
  "query_failed r =
     (case r of
        RequestError \<Rightarrow> True
      | OtherError \<Rightarrow> True
      | Parsed d \<Rightarrow>
          (case d of
             JObj kvs \<Rightarrow>
               map_of kvs ''code'' \<noteq> Some (JNum 200) \<or>
               (case map_of kvs ''data'' of None \<Rightarrow> True | Some v \<Rightarrow> \<not> truthy v)
           | _ \<Rightarrow> True))"

definition unmapped_status :: "json \<Rightarrow> bool" where
  "unmapped_status sd =
     (truthy sd \<and>
      (case dict_get sd ''status'' JNull of
         Inl e \<Rightarrow> False
       | Inr s \<Rightarrow> s \<notin> {JStr ''SUCCESS'', JStr ''FAILED'', JStr ''PENDING'', JStr ''GENERATING''}))"

definition still_waiting :: "json \<Rightarrow> bool" where
  "still_waiting sd =
     (if truthy sd then
        (case dict_get sd ''status'' JNull of
           Inl e \<Rightarrow> False
         | Inr s \<Rightarrow> if s = JStr ''SUCCESS'' then success_with sd [] else s \<noteq> JStr ''FAILED'')
      else True)"

definition failed_query :: poll_event where
  "failed_query = \<lparr>latency = 30000, reply = RequestError\<rparr>"

definition queued :: poll_event where
  "queued = status_reply 0 [(''status'', JStr ''QUEUED'')]"

text \<open>
  The clock at which request number \<open>j\<close> is sent when none of the earlier replies is
  terminal: each earlier round took its latency and one poll interval.
\<close>

definition sent_at :: "(nat \<Rightarrow> poll_event) \<Rightarrow> nat \<Rightarrow> nat \<Rightarrow> nat" where
  "sent_at env i j = (\<Sum>k<j. latency (env (i + k)) + 1000 * poll_interval)"

section \<open>generate\_hard\_trap.py: polling\<close>

text \<open>\<^verbatim>\<open>d[key]\<close>: a \<^verbatim>\<open>KeyError\<close> on a dict without the key, a \<^verbatim>\<open>TypeError\<close> on anything else.\<close>

fun dict_item :: "json \<Rightarrow> string \<Rightarrow> exn + json" where
  "dict_item (JObj kvs) k = (case map_of kvs k of None \<Rightarrow> Inl KeyError | Some v \<Rightarrow> Inr v)"
| "dict_item JNull k = Inl TypeError"
| "dict_item (JBool b) k = Inl TypeError"
| "dict_item (JNum n) k = Inl TypeError"
| "dict_item (JStr s) k = Inl TypeError"
| "dict_item (JArr xs) k = Inl TypeError"

text \<open>
  \<^verbatim>\<open>SunoAPIClient.get_task_status\<close> of generate\_hard\_trap.py: it raises on an API code other
  than 200, reads \<^verbatim>\<open>data["data"]\<close>, and its two \<^verbatim>\<open>except\<close> clauses print a line and return
  \<^verbatim>\<open>None\<close>.
\<close>

fun get_task_status_hard_trap :: "http_result \<Rightarrow> effect list \<times> json" where
  "get_task_status_hard_trap (Parsed data) =
     (case dict_get data ''code'' JNull of
        Inl e \<Rightarrow> ([Print MsgError], JNull)
      | Inr code \<Rightarrow>
          if code \<noteq> JNum 200 then ([Print MsgError], JNull)
          else (case dict_item data ''data'' of
                  Inl e \<Rightarrow> ([Print MsgError], JNull)
                | Inr v \<Rightarrow> ([], v)))"
| "get_task_status_hard_trap RequestError = ([Print MsgNetworkError], JNull)"
| "get_task_status_hard_trap OtherError = ([Print MsgError], JNull)"

definition poll_interval_hard_trap :: nat where
  "poll_interval_hard_trap = 5"

text \<open>
  The body of the loop of \<^verbatim>\<open>SunoAPIClient.wait_for_completion\<close> of generate\_hard\_trap.py.
  On \<^verbatim>\<open>SUCCESS\<close> it returns \<^verbatim>\<open>status_data.get("response", {}).get("data", [])\<close> as it is.
\<close>

definition loop_body_hard_trap :: "json \<Rightarrow> nat \<Rightarrow> effect list \<times> step" where
  "loop_body_hard_trap status_data elapsed =
     (if \<not> truthy status_data then
        ([Print MsgRetrying, Sleep poll_interval_hard_trap], Continue)
      else
        (case dict_get status_data ''status'' JNull of
           Inl e \<Rightarrow> ([], Stop (Inl e))
         | Inr status \<Rightarrow>
             if status = JStr ''SUCCESS'' then
               (case dict_get status_data ''response'' (JObj []) of
                  Inl e \<Rightarrow> ([Print (MsgCompleted elapsed)], Stop (Inl e))
                | Inr response_data \<Rightarrow>
                    (case dict_get response_data ''data'' (JArr []) of
                       Inl e \<Rightarrow> ([Print (MsgCompleted elapsed)], Stop (Inl e))
                     | Inr audio \<Rightarrow> ([Print (MsgCompleted elapsed)], Stop (Inr audio))))
             else if status = JStr ''FAILED'' then
               (case dict_get status_data ''errorMessage'' (JStr ''Unknown error'') of
                  Inl e \<Rightarrow> ([], Stop (Inl e))
                | Inr error_msg \<Rightarrow> ([Print (MsgFailed error_msg)], Stop (Inl (SystemExit 1))))
             else if status = JStr ''PENDING'' \<or> status = JStr ''GENERATING'' then
               ([Print (MsgProgress elapsed status ((elapsed div 5) mod 4)),
                 Sleep poll_interval_hard_trap], Continue)
             else
               ([Print (MsgUnknownStatus status), Sleep poll_interval_hard_trap], Continue)))"

lemma loop_body_hard_trap_slept:
  "snd (loop_body_hard_trap sd e) = Continue \<longrightarrow> slept_ms (fst (loop_body_hard_trap sd e)) = 5000"
  by (simp add: loop_body_hard_trap_def slept_ms_def poll_interval_hard_trap_def split: sum.split)

function wait_loop_hard_trap ::
  "string \<Rightarrow> int \<Rightarrow> (nat \<Rightarrow> poll_event) \<Rightarrow> nat \<Rightarrow> nat \<Rightarrow> effect list \<times> (exn + json)" where
  "wait_loop_hard_trap task_id max_wait env i t =
     (if int t < max_wait * 1000 then
        (let t1 = t + latency (env i);
             q = get_task_status_hard_trap (reply (env i));
             r = loop_body_hard_trap (snd q) (t1 div 1000)
         in case snd r of
              Stop out \<Rightarrow> (Request task_id # fst q @ fst r, out)
            | Continue \<Rightarrow>
                (let rest = wait_loop_hard_trap task_id max_wait env (Suc i)
                              (t1 + slept_ms (fst r))
                 in (Request task_id # fst q @ fst r @ fst rest, snd rest)))
      else ([Print (MsgTimeout max_wait)], Inl (SystemExit 1)))"
  by pat_completeness auto

termination
proof (relation "measure (\<lambda>(task_id, max_wait, env, i, t). nat (max_wait * 1000 - int t))")
  show "wf (measure (\<lambda>(task_id, max_wait, env, i, t). nat (max_wait * 1000 - int t)))"
    by simp
next
  fix task_id :: string and max_wait :: int and env :: "nat \<Rightarrow> poll_event"
    and i t t1 :: nat and q :: "effect list \<times> json" and r :: "effect list \<times> step"
  assume live: "int t < max_wait * 1000"
    and t1: "t1 = t + latency (env i)"
    and r: "r = loop_body_hard_trap (snd q) (t1 div 1000)"
    and c: "snd r = Continue"
  from r c have "slept_ms (fst r) = 5000"
    using loop_body_hard_trap_slept by blast
  with live t1
  show "((task_id, max_wait, env, Suc i, t1 + slept_ms (fst r)), (task_id, max_wait, env, i, t))
        \<in> measure (\<lambda>(task_id, max_wait, env, i, t). nat (max_wait * 1000 - int t))"
    by simp
qed

declare wait_loop_hard_trap.simps [simp del]

text \<open>\<^verbatim>\<open>wait_for_completion(task_id, max_wait)\<close> of generate\_hard\_trap.py; \<^verbatim>\<open>max_wait\<close> defaults to 300.\<close>

definition wait_for_completion_hard_trap ::
  "string \<Rightarrow> int \<Rightarrow> (nat \<Rightarrow> poll_event) \<Rightarrow> effect list \<times> (exn + json)" where
  "wait_for_completion_hard_trap task_id max_wait env =
     (let run = wait_loop_hard_trap task_id max_wait env 0 0
      in (Print MsgWaiting # fst run, snd run))"

section \<open>generate\_hard\_trap.py: the callback listener\<close>

text \<open>
  The module-level dict \<^verbatim>\<open>callback_data\<close>, shared by the handler and the waiter; it starts
  as \<^verbatim>\<open>{"received": False, "data": None, "error": None}\<close>.
\<close>

record callback_data =
  cb_received :: bool
  cb_data :: json
  cb_error :: json

definition callback_data_init :: callback_data where
  "callback_data_init = \<lparr>cb_received = False, cb_data = JNull, cb_error = JNull\<rparr>"

text \<open>
  An inbound POST, as the try block of \<^verbatim>\<open>do_POST\<close> meets it: reading the
  \<^verbatim>\<open>Content-Length\<close> header, decoding the body as UTF-8 or \<^verbatim>\<open>json.loads\<close> raises an
  exception whose text is \<open>e\<close> (\<open>BadPost e\<close>), or \<^verbatim>\<open>json.loads\<close> returns a value
  (\<open>JsonPost d\<close>). What the handler sends back is a status code and a body.
\<close>

datatype post = BadPost string | JsonPost json

datatype http_reply = Reply nat "json option"

text \<open>\<^verbatim>\<open>WebhookHandler.do_POST\<close>, run to its end without interleaving.\<close>

definition do_POST :: "post \<Rightarrow> callback_data \<Rightarrow> callback_data \<times> http_reply \<times> effect list" where
  "do_POST p cb =
     (case p of
        JsonPost d \<Rightarrow>
          (cb\<lparr>cb_received := True, cb_data := d\<rparr>,
           Reply 200 (Some (JObj [(''status'', JStr ''ok'')])),
           [Print MsgCallbackReceived])
      | BadPost e \<Rightarrow>
          (cb\<lparr>cb_error := JStr e\<rparr>, Reply 500 None, [Print (MsgCallbackError e)]))"

text \<open>
  \<^verbatim>\<open>run_server\<close>, the thread of \<^verbatim>\<open>start_webhook_server\<close>:
  \<^verbatim>\<open>while not callback_data["received"]: server.handle_request()\<close>, offered the posts of the
  list in order. A post the loop no longer handles gets no reply. On the empty list the
  thread blocks in \<^verbatim>\<open>handle_request\<close>; nothing changes.
\<close>

fun run_server :: "post list \<Rightarrow> callback_data \<Rightarrow> callback_data \<times> http_reply list \<times> effect list" where
  "run_server [] cb = (cb, [], [])"
| "run_server (p # ps) cb =
     (if cb_received cb then (cb, [], [])
      else (let h = do_POST p cb;
                rest = run_server ps (fst h)
            in (fst rest, fst (snd h) # fst (snd rest), snd (snd h) @ snd (snd rest))))"

text \<open>
  The server object \<^verbatim>\<open>start_webhook_server\<close> returns: \<^verbatim>\<open>HTTPServer(('0.0.0.0', port), ...)\<close>
  binds and listens on construction, so the socket is open from then on.
\<close>

record http_server =
  server_port :: nat
  socket_open :: bool

definition WEBHOOK_PORT :: nat where
  "WEBHOOK_PORT = 8877"

definition start_webhook_server :: "nat \<Rightarrow> http_server \<times> effect list" where
  "start_webhook_server port =
     (\<lparr>server_port = port, socket_open = True\<rparr>, [Print (MsgServerStarted port)])"

text \<open>
  The waiter and the listener thread share \<^verbatim>\<open>callback_data\<close>. The model runs them in turn:
  before the waiter's check number \<open>i\<close> the listener is offered the posts \<open>arrivals\<close> of
  tick \<open>i\<close>, each handled to its end; after a check that finds nothing the waiter sleeps
  one second and \<open>lag\<close> further milliseconds pass.
\<close>

record tick =
  arrivals :: "post list"
  lag :: nat

definition quiet :: tick where
  "quiet = \<lparr>arrivals = [], lag = 0\<rparr>"

definition schedule :: "tick list \<Rightarrow> nat \<Rightarrow> tick" where
  "schedule ts i = (if i < length ts then ts ! i else quiet)"

text \<open>The body of the loop of \<^verbatim>\<open>wait_for_callback\<close>.\<close>

definition callback_check :: "callback_data \<Rightarrow> nat \<Rightarrow> effect list \<times> step" where
  "callback_check cb elapsed =
     (if cb_received cb then
        (case dict_get (cb_data cb) ''code'' JNull of
           Inl e \<Rightarrow> ([], Stop (Inl e))
         | Inr code \<Rightarrow>
             if code = JNum 200 then
               (case dict_get (cb_data cb) ''data'' (JObj []) of
                  Inl e \<Rightarrow> ([Print MsgCallbackCompleted], Stop (Inl e))
                | Inr v \<Rightarrow> ([Print MsgCallbackCompleted], Stop (Inr v)))
             else
               (case dict_get (cb_data cb) ''msg'' (JStr ''Unknown error'') of
                  Inl e \<Rightarrow> ([], Stop (Inl e))
                | Inr error_msg \<Rightarrow> ([Print (MsgFailed error_msg)], Stop (Inl (SystemExit 1)))))
      else
        ([Print (MsgWaitingCallback elapsed ((elapsed div 5) mod 4)), Sleep 1], Continue))"

text \<open>
  What a run of the waiter leaves behind: the shared dict, the replies the listener sent,
  the number of ticks it took, the effects, and how \<^verbatim>\<open>wait_for_callback\<close> ended.
\<close>

record callback_run =
  mailbox :: callback_data
  replies :: "http_reply list"
  ticks :: nat
  trace :: "effect list"
  outcome :: "exn + json"

function wait_for_callback_loop ::
  "int \<Rightarrow> (nat \<Rightarrow> tick) \<Rightarrow> nat \<Rightarrow> nat \<Rightarrow> callback_data \<Rightarrow> callback_run" where
  "wait_for_callback_loop max_wait sched i t cb =
     (let s = run_server (arrivals (sched i)) cb in
      if int t < max_wait * 1000 then
        (let c = callback_check (fst s) (t div 1000)
         in case snd c of
              Stop out \<Rightarrow>
                \<lparr>mailbox = fst s, replies = fst (snd s), ticks = 1,
                 trace = snd (snd s) @ fst c, outcome = out\<rparr>
            | Continue \<Rightarrow>
                (let rest = wait_for_callback_loop max_wait sched (Suc i)
                              (t + 1000 + lag (sched i)) (fst s)
                 in rest\<lparr>replies := fst (snd s) @ replies rest,
                         ticks := Suc (ticks rest),
                         trace := snd (snd s) @ fst c @ trace rest\<rparr>))
      else
        \<lparr>mailbox = fst s, replies = fst (snd s), ticks = 1,
         trace = snd (snd s) @ [Print (MsgCallbackTimeout max_wait), Print (MsgFirewallTip WEBHOOK_PORT)],
         outcome = Inl (SystemExit 1)\<rparr>)"
  by pat_completeness auto

termination
  by (relation "measure (\<lambda>(max_wait, sched, i, t, cb). nat (max_wait * 1000 - int t))") auto

declare wait_for_callback_loop.simps [simp del]

text \<open>\<^verbatim>\<open>wait_for_callback(max_wait)\<close>; \<^verbatim>\<open>max_wait\<close> defaults to 300.\<close>

definition wait_for_callback :: "int \<Rightarrow> (nat \<Rightarrow> tick) \<Rightarrow> callback_data \<Rightarrow> callback_run" where
  "wait_for_callback max_wait sched cb =
     (let run = wait_for_callback_loop max_wait sched 0 0 cb
      in run\<lparr>trace := Print MsgWaiting # trace run\<rparr>)"

definition notification :: "json list \<Rightarrow> json" where
  "notification xs = JObj [(''code'', JNum 200), (''data'', JArr xs), (''msg'', JStr ''ok'')]"

definition track_b :: json where
  "track_b = JObj [(''audio_url'', JStr ''http://x/b.mp3'')]"

text \<open>
  The posts the listener is offered during \<open>n\<close> ticks from tick \<open>i\<close> on, in order; the
  content of the first of a list of posts that parses; whether a post fails to parse.
\<close>

definition offered :: "(nat \<Rightarrow> tick) \<Rightarrow> nat \<Rightarrow> nat \<Rightarrow> post list" where
  "offered sched i n = concat (map (\<lambda>k. arrivals (sched k)) [i..<i + n])"

fun first_valid :: "post list \<Rightarrow> json option" where
  "first_valid [] = None"
| "first_valid (JsonPost d # ps) = Some d"
| "first_valid (BadPost e # ps) = first_valid ps"

fun is_bad :: "post \<Rightarrow> bool" where
  "is_bad (BadPost e) = True"
| "is_bad (JsonPost d) = False"

text \<open>
  The clock at the waiter's check number \<open>k\<close> (counted from tick \<open>i\<close>) when no earlier
  check has ended the wait: each earlier round slept one second and lagged.
\<close>

definition check_at :: "(nat \<Rightarrow> tick) \<Rightarrow> nat \<Rightarrow> nat \<Rightarrow> nat" where
  "check_at sched i k = (\<Sum>j<k. 1000 + lag (sched (i + j)))"


text \<open>
  The notification body the specification describes, \<^verbatim>\<open>{code, data, msg}\<close>: an object with
  a \<^verbatim>\<open>code\<close> and a \<^verbatim>\<open>data\<close> entry; and the first post of a list that carries one.
\<close>

fun expected_structure :: "json \<Rightarrow> bool" where
  "expected_structure (JObj kvs) = (map_of kvs ''code'' \<noteq> None \<and> map_of kvs ''data'' \<noteq> None)"
| "expected_structure JNull = False"
| "expected_structure (JBool b) = False"
| "expected_structure (JNum n) = False"
| "expected_structure (JStr s) = False"
| "expected_structure (JArr xs) = False"

fun first_expected :: "post list \<Rightarrow> json option" where
  "first_expected [] = None"
| "first_expected (BadPost e # ps) = first_expected ps"
| "first_expected (JsonPost d # ps) = (if expected_structure d then Some d else first_expected ps)"

text \<open>
  \<^verbatim>\<open>main\<close> of generate\_hard\_trap.py, as far as the listening server is concerned. It starts
  the server first; then \<^verbatim>\<open>SunoAPIClient(...)\<close> exits when no API key is set, and
  \<^verbatim>\<open>generate_music\<close> either returns a task id or exits (both are inputs here: \<open>key_set\<close>,
  and \<open>task\<close> with \<open>None\<close> for the exit); then it calls \<^verbatim>\<open>wait_for_callback()\<close> with the
  default \<^verbatim>\<open>max_wait\<close> of 300, exits when the result is empty, and otherwise goes on to save
  and download it. The value names the server object and the point \<^verbatim>\<open>main\<close> has reached.
  No line of \<^verbatim>\<open>main\<close> uses \<^verbatim>\<open>server\<close> after creating it.
\<close>

datatype stage =
    NoKey
  | NotSubmitted
  | WaitRaised exn
  | NoAudio
  | Downloading json

definition main_hard_trap :: "bool \<Rightarrow> string option \<Rightarrow> (nat \<Rightarrow> tick) \<Rightarrow> http_server \<times> stage" where
  "main_hard_trap key_set task sched =
     (let server = fst (start_webhook_server WEBHOOK_PORT) in
      if \<not> key_set then (server, NoKey)
      else
        (case task of
           None \<Rightarrow> (server, NotSubmitted)
         | Some task_id \<Rightarrow>
             (case outcome (wait_for_callback 300 sched callback_data_init) of
                Inl e \<Rightarrow> (server, WaitRaised e)
              | Inr audio_info \<Rightarrow>
                  if \<not> truthy audio_info then (server, NoAudio)
                  else (server, Downloading audio_info))))"

text \<open>
  How the interpreter ends: \<^verbatim>\<open>sys.exit(n)\<close> that nothing catches ends the process with status
  \<open>n\<close>, any other uncaught exception with status 1; at \<open>Downloading\<close> the process is still
  running. A process that has ended holds no socket: the operating system has closed it.
\<close>

definition exit_code :: "exn \<Rightarrow> int" where
  "exit_code e = (case e of SystemExit n \<Rightarrow> n | _ \<Rightarrow> 1)"

definition exit_status :: "stage \<Rightarrow> int option" where
  "exit_status st =
     (case st of
        NoKey \<Rightarrow> Some 1
      | NotSubmitted \<Rightarrow> Some 1
      | WaitRaised e \<Rightarrow> Some (exit_code e)
      | NoAudio \<Rightarrow> Some 1
      | Downloading audio_info \<Rightarrow> None)"

definition still_listening :: "http_server \<times> stage \<Rightarrow> bool" where
  "still_listening m = (socket_open (fst m) \<and> exit_status (snd m) = None)"

section \<open>r2r.py: SunoPersona\<close>











section \<open>The polling loop: unfolding and the terminal replies\<close>

lemma dict_get_Inr_truthy:
  "dict_get sd k JNull = Inr (JStr s) \<Longrightarrow> truthy sd"
  by (cases sd) (auto split: option.splits)


lemma loop_body_success_empty:
  assumes "success_with sd []"
  shows "loop_body sd e =
    ([Print MsgNoAudio, Print (MsgRawData sd), Sleep poll_interval], Continue)"
proof -
  from assms(1) have st: "dict_get sd ''status'' JNull = Inr (JStr ''SUCCESS'')"
    by (simp add: success_with_def)
  then have tr: "truthy sd" by (rule dict_get_Inr_truthy)
  from assms(1) obtain resp where
    r: "dict_get sd ''response'' (JObj []) = Inr resp"
    and d: "dict_get resp ''data'' (JArr []) = Inr (JArr [])"
    by (auto simp: success_with_def split: sum.splits)
  show ?thesis
    by (simp add: loop_body_def tr st r d)
qed


lemma loop_body_no_request: "requests (fst (loop_body sd e)) = 0"
  by (simp add: loop_body_def requests_def split: sum.split)

lemma wait_loop_timeout:
  "\<not> int t < mw * 1000 \<Longrightarrow>
   wait_loop task mw env i t = ([Print (MsgTimeout mw)], Inl (SystemExit 1))"
  by (subst wait_loop.simps) simp

lemma wait_loop_stop:
  assumes "int t < mw * 1000"
    and "snd (loop_body (get_task_status (reply (env i))) ((t + latency (env i)) div 1000)) = Stop out"
  shows "wait_loop task mw env i t =
    (Request task # fst (loop_body (get_task_status (reply (env i))) ((t + latency (env i)) div 1000)), out)"
  using assms by (subst wait_loop.simps) (simp add: Let_def)

lemma wait_loop_continue:
  assumes "int t < mw * 1000"
    and "snd (loop_body (get_task_status (reply (env i))) ((t + latency (env i)) div 1000)) = Continue"
  shows "wait_loop task mw env i t =
    (Request task # fst (loop_body (get_task_status (reply (env i))) ((t + latency (env i)) div 1000))
       @ fst (wait_loop task mw env (Suc i) (t + latency (env i) + 10000)),
     snd (wait_loop task mw env (Suc i) (t + latency (env i) + 10000)))"
proof -
  from assms(2) have "slept_ms (fst (loop_body (get_task_status (reply (env i))) ((t + latency (env i)) div 1000))) = 10000"
    using loop_body_slept by blast
  with assms show ?thesis
    by (subst wait_loop.simps) (simp add: Let_def)
qed


lemma requests_Cons_Request [simp]: "requests (Request t # tr) = Suc (requests tr)"
  by (simp add: requests_def)

lemma requests_Cons_Print [simp]: "requests (Print m # tr) = requests tr"
  by (simp add: requests_def)

lemma requests_Cons_Sleep [simp]: "requests (Sleep d # tr) = requests tr"
  by (simp add: requests_def)

lemma requests_Nil [simp]: "requests [] = 0"
  by (simp add: requests_def)

lemma requests_append [simp]: "requests (a @ b) = requests a + requests b"
  by (simp add: requests_def)




lemma wait_for_completion_requests:
  "requests (fst (wait_for_completion task mw env)) = requests (fst (wait_loop task mw env 0 0))"
  by (simp add: wait_for_completion_def Let_def)


lemmas run_defs = wait_for_completion_def wait_loop.simps loop_body_def replay_def
  status_reply_def pending_def success_reply_def failed_reply_def track_a_def
  poll_interval_def slept_ms_def Let_def

section \<open>Claims about the polling strategy\<close>





section \<open>Replies that keep the loop going\<close>

lemma query_failed_None: "query_failed r \<longrightarrow> \<not> truthy (get_task_status r)"
  by (cases r) (simp_all add: query_failed_def split: json.split option.split)

lemma loop_body_query_failed:
  "\<not> truthy sd \<Longrightarrow> loop_body sd e = ([Print (MsgChecking e), Sleep poll_interval], Continue)"
  by (simp add: loop_body_def)

lemma loop_body_unmapped:
  "unmapped_status sd \<longrightarrow>
     (\<exists>s. loop_body sd e = ([Print (MsgUnknownStatus s), Sleep poll_interval], Continue))"
  by (simp add: unmapped_status_def loop_body_def split: sum.split)

lemma loop_body_waiting:
  "still_waiting sd \<longrightarrow>
     snd (loop_body sd e) = Continue \<and>
     (\<forall>err. Print (MsgFailed err) \<notin> set (fst (loop_body sd e)))"
  by (simp add: still_waiting_def success_with_def loop_body_def split: sum.split)

lemma wait_loop_head:
  "wait_loop task mw env i t = ([Print (MsgTimeout mw)], Inl (SystemExit 1)) \<or>
   (\<exists>post. fst (wait_loop task mw env i t) = Request task # post)"
proof (cases "int t < mw * 1000")
  case False
  then show ?thesis by (simp add: wait_loop_timeout)
next
  case True
  show ?thesis
  proof (cases "snd (loop_body (get_task_status (reply (env i))) ((t + latency (env i)) div 1000))")
    case Continue
    from wait_loop_continue [where env = env and i = i, OF True Continue] show ?thesis by simp
  next
    case (Stop out)
    from wait_loop_stop [where env = env and i = i, OF True Stop] show ?thesis by simp
  qed
qed

lemma wait_loop_live_requests:
  "j < requests (fst (wait_loop task mw env i t)) \<Longrightarrow> int t < mw * 1000"
proof (rule ccontr)
  assume j: "j < requests (fst (wait_loop task mw env i t))" and "\<not> int t < mw * 1000"
  then have "requests (fst (wait_loop task mw env i t)) = 0"
    by (simp add: wait_loop_timeout)
  with j show False by simp
qed

lemma sent_at_Suc:
  "sent_at env i (Suc j) = latency (env i) + 10000 + sent_at env (Suc i) j"
  by (simp add: sent_at_def sum.lessThan_Suc_shift poll_interval_def del: sum.lessThan_Suc)

lemma sent_at_0 [simp]: "sent_at env i 0 = 0"
  by (simp add: sent_at_def)

lemma wait_loop_next:
  "if int t < mw * 1000
   then \<exists>post. fst (wait_loop task mw env i t) = Request task # post
   else wait_loop task mw env i t = ([Print (MsgTimeout mw)], Inl (SystemExit 1))"
proof (cases "int t < mw * 1000")
  case False
  then show ?thesis by (simp add: wait_loop_timeout)
next
  case True
  show ?thesis
  proof (cases "snd (loop_body (get_task_status (reply (env i))) ((t + latency (env i)) div 1000))")
    case Continue
    from wait_loop_continue [where env = env and i = i, OF True Continue] True
    show ?thesis by simp
  next
    case (Stop out)
    from wait_loop_stop [where env = env and i = i, OF True Stop] True
    show ?thesis by simp
  qed
qed

lemma wait_loop_continues_at:
  assumes "j < requests (fst (wait_loop task mw env i t))"
    and "\<And>e. loop_body (get_task_status (reply (env (i + j)))) e = (fx e, Continue)"
  shows "\<exists>pre e. wait_loop task mw env i t =
           (pre @ Request task # fx e
              @ fst (wait_loop task mw env (Suc (i + j)) (t + sent_at env i (Suc j))),
            snd (wait_loop task mw env (Suc (i + j)) (t + sent_at env i (Suc j))))
         \<and> requests pre = j"
  using assms
proof (induction j arbitrary: i t)
  case 0
  have live: "int t < mw * 1000"
    using "0.prems"(1) by (rule wait_loop_live_requests)
  let ?e = "(t + latency (env i)) div 1000"
  from "0.prems"(2) [of ?e] have b: "loop_body (get_task_status (reply (env i))) ?e = (fx ?e, Continue)"
    by simp
  then have "snd (loop_body (get_task_status (reply (env i))) ?e) = Continue"
    by simp
  from wait_loop_continue [where env = env and i = i and task = task, OF live this] b
  have "wait_loop task mw env i t =
      ([] @ Request task # fx ?e
          @ fst (wait_loop task mw env (Suc (i + 0)) (t + sent_at env i (Suc 0))),
       snd (wait_loop task mw env (Suc (i + 0)) (t + sent_at env i (Suc 0))))"
    by (simp add: sent_at_Suc add.assoc)
  then show ?case by (metis requests_Nil)
next
  case (Suc j)
  have live: "int t < mw * 1000"
    using Suc.prems(1) by (rule wait_loop_live_requests)
  let ?e = "(t + latency (env i)) div 1000"
  let ?b = "loop_body (get_task_status (reply (env i))) ?e"
  let ?t1 = "t + latency (env i) + 10000"
  let ?rest = "wait_loop task mw env (Suc i) ?t1"
  show ?case
  proof (cases "snd ?b")
    case (Stop out')
    then have "wait_loop task mw env i t = (Request task # fst ?b, out')"
      using wait_loop_stop [OF live] by simp
    then have "requests (fst (wait_loop task mw env i t)) = 1"
      by (simp add: loop_body_no_request)
    with Suc.prems(1) show ?thesis by simp
  next
    case Continue
    then have w: "wait_loop task mw env i t = (Request task # fst ?b @ fst ?rest, snd ?rest)"
      using wait_loop_continue [OF live] by simp
    then have "requests (fst (wait_loop task mw env i t)) = Suc (requests (fst ?rest))"
      by (simp add: loop_body_no_request)
    with Suc.prems(1) have j: "j < requests (fst ?rest)" by simp
    have "\<And>e. loop_body (get_task_status (reply (env (Suc i + j)))) e = (fx e, Continue)"
      using Suc.prems(2) by simp
    from Suc.IH [OF j this] obtain pre e where
      r: "?rest = (pre @ Request task # fx e
                     @ fst (wait_loop task mw env (Suc (Suc i + j)) (?t1 + sent_at env (Suc i) (Suc j))),
                   snd (wait_loop task mw env (Suc (Suc i + j)) (?t1 + sent_at env (Suc i) (Suc j))))"
      and p: "requests pre = j"
      by blast
    have clock: "?t1 + sent_at env (Suc i) (Suc j) = t + sent_at env i (Suc (Suc j))"
      by (simp add: sent_at_Suc [of env i "Suc j"])
    from w r have "wait_loop task mw env i t =
        ((Request task # fst ?b @ pre) @ Request task # fx e
            @ fst (wait_loop task mw env (Suc (i + Suc j)) (t + sent_at env i (Suc (Suc j)))),
         snd (wait_loop task mw env (Suc (i + Suc j)) (t + sent_at env i (Suc (Suc j)))))"
      unfolding clock [symmetric] by simp
    moreover have "requests (Request task # fst ?b @ pre) = Suc j"
      using p by (simp add: loop_body_no_request)
    ultimately show ?thesis by blast
  qed
qed

lemma wait_loop_sends:
  assumes "int t < mw * 1000"
  shows "0 < requests (fst (wait_loop task mw env i t))"
proof (cases "snd (loop_body (get_task_status (reply (env i))) ((t + latency (env i)) div 1000))")
  case Continue
  from wait_loop_continue [where env = env and i = i and task = task, OF assms Continue]
  show ?thesis by simp
next
  case (Stop out)
  from wait_loop_stop [where env = env and i = i and task = task, OF assms Stop]
  show ?thesis by simp
qed


lemma sleeps_append [simp]: "sleeps (a @ b) = sleeps a @ sleeps b"
  by (induction a rule: sleeps.induct) simp_all

lemma loop_body_sleeps: "set (sleeps (fst (loop_body sd e))) \<subseteq> {poll_interval}"
  by (simp add: loop_body_def split: sum.split)

lemma wait_loop_sleeps: "set (sleeps (fst (wait_loop task mw env i t))) \<subseteq> {poll_interval}"
proof (induction "nat (mw * 1000 - int t)" arbitrary: i t rule: less_induct)
  case less
  show ?case
  proof (cases "int t < mw * 1000")
    case False
    then show ?thesis by (simp add: wait_loop_timeout)
  next
    case True
    let ?e = "(t + latency (env i)) div 1000"
    let ?b = "loop_body (get_task_status (reply (env i))) ?e"
    let ?t' = "t + latency (env i) + 10000"
    let ?rest = "wait_loop task mw env (Suc i) ?t'"
    show ?thesis
    proof (cases "snd ?b")
      case (Stop out)
      from wait_loop_stop [where env = env and i = i and task = task, OF True Stop]
      show ?thesis using loop_body_sleeps [of "get_task_status (reply (env i))" ?e] by simp
    next
      case Continue
      have "nat (mw * 1000 - int ?t') < nat (mw * 1000 - int t)"
        using True by simp
      then have "set (sleeps (fst ?rest)) \<subseteq> {poll_interval}"
        by (rule less.hyps)
      with wait_loop_continue [where env = env and i = i and task = task, OF True Continue]
      show ?thesis using loop_body_sleeps [of "get_task_status (reply (env i))" ?e] by simp
    qed
  qed
qed

lemma loop_body_unmapped_all:
  assumes "unmapped_status sd"
  shows "\<exists>s. \<forall>e. loop_body sd e = ([Print (MsgUnknownStatus s), Sleep poll_interval], Continue)"
proof -
  from assms obtain s where tr: "truthy sd" and st: "dict_get sd ''status'' JNull = Inr s"
    and ns: "s \<noteq> JStr ''SUCCESS''" "s \<noteq> JStr ''FAILED''" "s \<noteq> JStr ''PENDING''"
      "s \<noteq> JStr ''GENERATING''"
    by (auto simp: unmapped_status_def split: sum.splits)
  then have "\<forall>e. loop_body sd e = ([Print (MsgUnknownStatus s), Sleep poll_interval], Continue)"
    by (simp add: loop_body_def)
  then show ?thesis ..
qed

lemma wait_for_completion_continues_at:
  assumes "j < requests (fst (wait_for_completion task mw env))"
    and "\<And>e. loop_body (get_task_status (reply (env j))) e = (fx e, Continue)"
  shows "\<exists>pre e post. fst (wait_for_completion task mw env) = pre @ Request task # fx e @ post
           \<and> requests pre = j
           \<and> (if int (sent_at env 0 (Suc j)) < mw * 1000
             then \<exists>post'. post = Request task # post'
             else post = [Print (MsgTimeout mw)] \<and>
                  snd (wait_for_completion task mw env) = Inl (SystemExit 1))"
proof -
  from assms(1) have "j < requests (fst (wait_loop task mw env 0 0))"
    by (simp add: wait_for_completion_requests)
  moreover have "\<And>e. loop_body (get_task_status (reply (env (0 + j)))) e = (fx e, Continue)"
    using assms(2) by simp
  ultimately obtain pre e where
    r: "wait_loop task mw env 0 0 =
          (pre @ Request task # fx e
             @ fst (wait_loop task mw env (Suc (0 + j)) (0 + sent_at env 0 (Suc j))),
           snd (wait_loop task mw env (Suc (0 + j)) (0 + sent_at env 0 (Suc j))))"
    and p: "requests pre = j"
    using wait_loop_continues_at by blast
  let ?rest = "wait_loop task mw env (Suc j) (sent_at env 0 (Suc j))"
  from r have f: "fst (wait_for_completion task mw env) =
      (Print MsgWaiting # pre) @ Request task # fx e @ fst ?rest"
    and o: "snd (wait_for_completion task mw env) = snd ?rest"
    by (simp_all add: wait_for_completion_def)
  have q: "requests (Print MsgWaiting # pre) = j"
    using p by simp
  have n: "if int (sent_at env 0 (Suc j)) < mw * 1000
        then \<exists>post'. fst ?rest = Request task # post'
        else fst ?rest = [Print (MsgTimeout mw)] \<and> snd ?rest = Inl (SystemExit 1)"
    using wait_loop_next [of "sent_at env 0 (Suc j)" mw task env "Suc j"]
    by (simp split: if_splits)
  show ?thesis
    using f q n o
    by (intro exI [of _ "Print MsgWaiting # pre"] exI [of _ e] exI [of _ "fst ?rest"]) simp
qed

lemma continuing_step_shape:
  assumes "j < requests (fst (wait_for_completion task max_wait env))"
    and b: "\<And>e. loop_body (get_task_status (reply (env j))) e =
                 ([Print (m e), Sleep poll_interval], Continue)"
    and nf: "\<And>e err. m e \<noteq> MsgFailed err"
  shows "\<exists>pre m post.
           fst (wait_for_completion task max_wait env) =
             pre @ Request task # Print m # Sleep poll_interval # post
         \<and> requests pre = j
         \<and> (\<forall>err. m \<noteq> MsgFailed err)
         \<and> (if int (sent_at env 0 (Suc j)) < max_wait * 1000
             then \<exists>post'. post = Request task # post'
             else post = [Print (MsgTimeout max_wait)] \<and>
                  snd (wait_for_completion task max_wait env) = Inl (SystemExit 1))"
proof -
  from wait_for_completion_continues_at [OF assms(1) b] obtain pre e post where
    "fst (wait_for_completion task max_wait env) =
       pre @ Request task # [Print (m e), Sleep poll_interval] @ post"
    and "requests pre = j"
    and "if int (sent_at env 0 (Suc j)) < max_wait * 1000
             then \<exists>post'. post = Request task # post'
             else post = [Print (MsgTimeout max_wait)] \<and>
                  snd (wait_for_completion task max_wait env) = Inl (SystemExit 1)"
    by blast
  with nf show ?thesis
    by (intro exI [of _ pre] exI [of _ "m e"] exI [of _ post]) simp
qed

text \<open>
  C6, as amended. Whenever a run sends its request number \<open>j\<close> and \<^verbatim>\<open>get_task_status\<close> has
  nothing to hand to the loop (a network error, a body that is not JSON or not an object,
  an API code other than 200, a code-200 body without data) or the reply carries a status
  outside \<^verbatim>\<open>SUCCESS\<close>, \<^verbatim>\<open>FAILED\<close>, \<^verbatim>\<open>PENDING\<close>, \<^verbatim>\<open>GENERATING\<close>, the iteration is: the request,
  one printed line that is not the failure line, one sleep of the poll interval. What
  follows is decided by the clock alone, which then stands at \<open>sent_at env 0 (Suc j)\<close>: the
  next request while that is below \<^verbatim>\<open>max_wait\<close>, and only otherwise the timeout line and
  \<^verbatim>\<open>sys.exit(1)\<close>.
\<close>

theorem transient_reply_keeps_polling:
  assumes "j < requests (fst (wait_for_completion task max_wait env))"
    and "query_failed (reply (env j)) \<or> unmapped_status (get_task_status (reply (env j)))"
  shows "\<exists>pre m post.
           fst (wait_for_completion task max_wait env) =
             pre @ Request task # Print m # Sleep poll_interval # post
         \<and> requests pre = j
         \<and> (\<forall>err. m \<noteq> MsgFailed err)
         \<and> (if int (sent_at env 0 (Suc j)) < max_wait * 1000
             then \<exists>post'. post = Request task # post'
             else post = [Print (MsgTimeout max_wait)] \<and>
                  snd (wait_for_completion task max_wait env) = Inl (SystemExit 1))"
  using assms(2)
proof
  assume "query_failed (reply (env j))"
  then have "\<not> truthy (get_task_status (reply (env j)))"
    using query_failed_None by blast
  then have "\<And>e. loop_body (get_task_status (reply (env j))) e =
               ([Print (MsgChecking e), Sleep poll_interval], Continue)"
    by (rule loop_body_query_failed)
  from continuing_step_shape [where m = MsgChecking, OF assms(1) this]
  show ?thesis by simp
next
  assume "unmapped_status (get_task_status (reply (env j)))"
  then obtain s where "\<forall>e. loop_body (get_task_status (reply (env j))) e =
               ([Print (MsgUnknownStatus s), Sleep poll_interval], Continue)"
    using loop_body_unmapped_all by blast
  then have "\<And>e. loop_body (get_task_status (reply (env j))) e =
               ([Print (MsgUnknownStatus s), Sleep poll_interval], Continue)"
    by simp
  from continuing_step_shape [where m = "\<lambda>e. MsgUnknownStatus s", OF assms(1) this]
  show ?thesis by simp
qed

theorem transient_reply_keeps_polling_witness:
  "wait_for_completion ''t'' 360 (replay [failed_query, queued, success_reply [track_a]] pending) =
     ([Print MsgWaiting,
       Request ''t'', Print (MsgChecking 30), Sleep 10,
       Request ''t'', Print (MsgUnknownStatus (JStr ''QUEUED'')), Sleep 10,
       Request ''t'', Print (MsgCompleted 50), Print (MsgGenerated 1)], Inr (JArr [track_a]))
   \<and> wait_for_completion ''t'' 45 (replay [failed_query, queued] queued) =
     ([Print MsgWaiting,
       Request ''t'', Print (MsgChecking 30), Sleep 10,
       Request ''t'', Print (MsgUnknownStatus (JStr ''QUEUED'')), Sleep 10,
       Print (MsgTimeout 45)], Inl (SystemExit 1))"
proof -
  let ?env = "replay [failed_query, queued, success_reply [track_a]] pending"
  have a: "0 < requests (fst (wait_for_completion ''t'' 360 ?env))"
    by (simp add: run_defs failed_query_def queued_def)
  have b: "query_failed (reply (?env 0)) \<or> unmapped_status (get_task_status (reply (?env 0)))"
    by (simp add: query_failed_def replay_def failed_query_def)
  from transient_reply_keeps_polling [OF a b]
  have "\<exists>pre m post. fst (wait_for_completion ''t'' 360 ?env) =
      pre @ Request ''t'' # Print m # Sleep poll_interval # post"
    by (elim exE conjE) blast
  then show ?thesis
    by (simp add: run_defs failed_query_def queued_def)
qed

text \<open>
  C6 as stated takes every malformed response as a round of waiting. A reply with code
  200 whose \<^verbatim>\<open>data\<close> is a string passes \<^verbatim>\<open>get_task_status\<close>, and \<^verbatim>\<open>status_data.get\<close> then
  raises out of \<^verbatim>\<open>wait_for_completion\<close> after the first request, with the whole budget left.
\<close>

theorem malformed_reply_aborts_counterexample:
  "wait_for_completion ''t'' 360
     (replay [\<lparr>latency = 0,
               reply = Parsed (JObj [(''code'', JNum 200), (''data'', JStr ''oops'')])\<rparr>] pending) =
     ([Print MsgWaiting, Request ''t''], Inl AttributeError)"
  by (simp add: run_defs)




text \<open>
  Request number \<open>j\<close> is sent whenever the earlier replies are not terminal and the
  budget has not run out by then.
\<close>

lemma wait_loop_request_is_sent:
  assumes "\<forall>k<j. still_waiting (get_task_status (reply (env (i + k))))"
    and "int (t + sent_at env i j) < mw * 1000"
  shows "j < requests (fst (wait_loop task mw env i t))"
  using assms
proof (induction j arbitrary: i t)
  case 0
  then have "int t < mw * 1000" by (simp add: sent_at_def)
  then show ?case by (rule wait_loop_sends)
next
  case (Suc j)
  from Suc.prems(2) have live: "int t < mw * 1000" by simp
  let ?e = "(t + latency (env i)) div 1000"
  let ?b = "loop_body (get_task_status (reply (env i))) ?e"
  let ?rest = "wait_loop task mw env (Suc i) (t + latency (env i) + 10000)"
  from Suc.prems(1) have "still_waiting (get_task_status (reply (env (i + 0))))"
    by blast
  then have c: "snd ?b = Continue"
    using loop_body_waiting by simp
  from wait_loop_continue [where env = env and i = i and task = task, OF live c]
  have rq: "requests (fst (wait_loop task mw env i t)) = Suc (requests (fst ?rest))"
    by (simp add: loop_body_no_request)
  have "\<forall>k<j. still_waiting (get_task_status (reply (env (Suc i + k))))"
  proof (intro allI impI)
    fix k assume "k < j"
    then have "Suc k < Suc j" by simp
    with Suc.prems(1) have "still_waiting (get_task_status (reply (env (i + Suc k))))"
      by blast
    then show "still_waiting (get_task_status (reply (env (Suc i + k))))" by simp
  qed
  moreover have "int (t + latency (env i) + 10000 + sent_at env (Suc i) j) < mw * 1000"
    using Suc.prems(2) by (simp add: sent_at_Suc add.assoc)
  ultimately have "j < requests (fst ?rest)"
    by (rule Suc.IH)
  with rq show ?case by simp
qed

lemma request_is_sent:
  assumes "\<forall>k<j. still_waiting (get_task_status (reply (env k)))"
    and "int (sent_at env 0 j) < max_wait * 1000"
  shows "j < requests (fst (wait_for_completion task max_wait env))"
  using wait_loop_request_is_sent [of j env 0 0 max_wait task] assms
  by (simp add: wait_for_completion_requests)

lemma success_without_artifacts_keeps_polling:
  assumes "j < requests (fst (wait_for_completion task max_wait env))"
    and "success_with (get_task_status (reply (env j))) []"
  shows "\<exists>pre post.
           fst (wait_for_completion task max_wait env) =
             pre @ Request task # Print MsgNoAudio
               # Print (MsgRawData (get_task_status (reply (env j))))
               # Sleep poll_interval # post
         \<and> requests pre = j
         \<and> (if int (sent_at env 0 (Suc j)) < max_wait * 1000
             then \<exists>post'. post = Request task # post'
             else post = [Print (MsgTimeout max_wait)] \<and>
                  snd (wait_for_completion task max_wait env) = Inl (SystemExit 1))"
proof -
  let ?sd = "get_task_status (reply (env j))"
  let ?fx = "\<lambda>e::nat. [Print MsgNoAudio, Print (MsgRawData ?sd), Sleep poll_interval]"
  have "\<And>e. loop_body ?sd e = (?fx e, Continue)"
    using assms(2) by (rule loop_body_success_empty)
  from wait_for_completion_continues_at [OF assms(1) this] obtain pre post where
    "fst (wait_for_completion task max_wait env) =
       pre @ Request task # [Print MsgNoAudio, Print (MsgRawData ?sd), Sleep poll_interval] @ post"
    and "requests pre = j"
    and "if int (sent_at env 0 (Suc j)) < max_wait * 1000
             then \<exists>post'. post = Request task # post'
             else post = [Print (MsgTimeout max_wait)] \<and>
                  snd (wait_for_completion task max_wait env) = Inl (SystemExit 1)"
    by blast
  then show ?thesis
    by (intro exI [of _ pre] exI [of _ post]) simp
qed

section \<open>The two polling loops compared\<close>

lemmas run_defs_hard_trap = wait_for_completion_hard_trap_def wait_loop_hard_trap.simps
  loop_body_hard_trap_def replay_def status_reply_def pending_def success_reply_def
  failed_reply_def track_a_def poll_interval_hard_trap_def slept_ms_def Let_def

text \<open>
  C1. The polling script never ends on \<^verbatim>\<open>SUCCESS\<close> with an empty artifact list (lemma
  \<open>success_without_artifacts_keeps_polling\<close>), and returns a later non-empty list.
  The other implementation does not: on the replies \<^verbatim>\<open>SUCCESS\<close> with an empty list, then
  \<^verbatim>\<open>SUCCESS\<close> with one artifact, the polling script sleeps, polls again and returns the
  artifact of the second reply, while \<^verbatim>\<open>wait_for_completion\<close> of generate\_hard\_trap.py
  returns the empty list after the first request and never sends the second.
\<close>

theorem success_without_artifacts_ends_hard_trap:
  "wait_for_completion ''t'' 300 (replay [success_reply [], success_reply [track_a]] pending) =
     ([Print MsgWaiting,
       Request ''t'', Print MsgNoAudio,
       Print (MsgRawData (JObj [(''status'', JStr ''SUCCESS''),
                                (''response'', JObj [(''data'', JArr [])])])),
       Sleep 10,
       Request ''t'', Print (MsgCompleted 10), Print (MsgGenerated 1)], Inr (JArr [track_a]))
   \<and> wait_for_completion_hard_trap ''t'' 300
        (replay [success_reply [], success_reply [track_a]] pending) =
     ([Print MsgWaiting, Request ''t'', Print (MsgCompleted 0)], Inr (JArr []))"
  by (simp add: run_defs run_defs_hard_trap)

lemma wait_loop_hard_trap_timeout:
  "\<not> int t < mw * 1000 \<Longrightarrow>
   wait_loop_hard_trap task mw env i t = ([Print (MsgTimeout mw)], Inl (SystemExit 1))"
  by (subst wait_loop_hard_trap.simps) simp

lemma get_task_status_hard_trap_sleeps:
  "sleeps (fst (get_task_status_hard_trap r)) = []"
  by (cases r) (simp_all split: sum.split)

lemma loop_body_hard_trap_sleeps:
  "set (sleeps (fst (loop_body_hard_trap sd e))) \<subseteq> {poll_interval_hard_trap}"
  by (simp add: loop_body_hard_trap_def split: sum.split)

lemma wait_loop_hard_trap_sleeps:
  "set (sleeps (fst (wait_loop_hard_trap task mw env i t))) \<subseteq> {poll_interval_hard_trap}"
proof (induction "nat (mw * 1000 - int t)" arbitrary: i t rule: less_induct)
  case less
  show ?case
  proof (cases "int t < mw * 1000")
    case False
    then show ?thesis by (simp add: wait_loop_hard_trap_timeout)
  next
    case True
    let ?q = "get_task_status_hard_trap (reply (env i))"
    let ?b = "loop_body_hard_trap (snd ?q) ((t + latency (env i)) div 1000)"
    let ?t' = "t + latency (env i) + 5000"
    let ?rest = "wait_loop_hard_trap task mw env (Suc i) ?t'"
    note bs = loop_body_hard_trap_sleeps [of "snd ?q" "(t + latency (env i)) div 1000"]
    show ?thesis
    proof (cases "snd ?b")
      case (Stop out)
      with True have "wait_loop_hard_trap task mw env i t = (Request task # fst ?q @ fst ?b, out)"
        by (subst wait_loop_hard_trap.simps) (simp add: Let_def)
      then show ?thesis
        using bs by (simp add: get_task_status_hard_trap_sleeps)
    next
      case Continue
      then have "slept_ms (fst ?b) = 5000"
        using loop_body_hard_trap_slept by blast
      with True Continue
      have w: "wait_loop_hard_trap task mw env i t =
          (Request task # fst ?q @ fst ?b @ fst ?rest, snd ?rest)"
        by (subst wait_loop_hard_trap.simps) (simp add: Let_def)
      have "nat (mw * 1000 - int ?t') < nat (mw * 1000 - int t)"
        using True by simp
      then have "set (sleeps (fst ?rest)) \<subseteq> {poll_interval_hard_trap}"
        by (rule less.hyps)
      with w bs show ?thesis
        by (simp add: get_task_status_hard_trap_sleeps)
    qed
  qed
qed

text \<open>
  C9, as amended. \<^verbatim>\<open>max_wait\<close> is an argument of \<^verbatim>\<open>wait_for_completion\<close>; the poll interval
  is not. Whatever the caller passes and whatever the remote side answers, every sleep
  between two polls lasts the 10 seconds the polling script fixes, and the 5 seconds
  generate\_hard\_trap.py fixes.
\<close>

theorem poll_interval_is_fixed:
  "set (sleeps (fst (wait_for_completion task_id max_wait env))) \<subseteq> {10} \<and>
   set (sleeps (fst (wait_for_completion_hard_trap task_id max_wait env))) \<subseteq> {5}"
proof -
  have "set (sleeps (fst (wait_for_completion task_id max_wait env))) \<subseteq> {10}"
    using wait_loop_sleeps [of task_id max_wait env 0 0]
    by (simp add: wait_for_completion_def poll_interval_def Let_def)
  moreover have "set (sleeps (fst (wait_for_completion_hard_trap task_id max_wait env))) \<subseteq> {5}"
    using wait_loop_hard_trap_sleeps [of task_id max_wait env 0 0]
    by (simp add: wait_for_completion_hard_trap_def poll_interval_hard_trap_def Let_def)
  ultimately show ?thesis ..
qed

theorem poll_interval_is_fixed_witness:
  "sleeps (fst (wait_for_completion ''t'' 25 (replay [] pending))) = [10, 10, 10] \<and>
   sleeps (fst (wait_for_completion_hard_trap ''t'' 12 (replay [] pending))) = [5, 5, 5]"
  using poll_interval_is_fixed [of "''t''" 25 "replay [] pending"]
  by (simp add: run_defs run_defs_hard_trap)

text \<open>
  C9 as stated makes the interval between polls a value the caller supplies. Two calls
  that differ in everything the caller can pass sleep the same 10 seconds between polls.
\<close>

theorem caller_supplied_poll_interval_counterexample:
  "sleeps (fst (wait_for_completion ''a'' 25 (replay [] pending))) = [10, 10, 10] \<and>
   sleeps (fst (wait_for_completion ''b'' 15 (replay [] pending))) = [10, 10]"
  by (simp add: run_defs)

section \<open>Claims about the callback strategy\<close>

lemmas callback_defs = wait_for_callback_def wait_for_callback_loop.simps
  callback_check_def do_POST_def start_webhook_server_def callback_data_init_def
  schedule_def quiet_def notification_def track_a_def track_b_def WEBHOOK_PORT_def Let_def

lemma run_server_received: "cb_received cb \<Longrightarrow> run_server ps cb = (cb, [], [])"
  by (cases ps) simp_all

lemma run_server_append:
  "fst (run_server (ps @ qs) cb) = fst (run_server qs (fst (run_server ps cb))) \<and>
   fst (snd (run_server (ps @ qs) cb)) =
     fst (snd (run_server ps cb)) @ fst (snd (run_server qs (fst (run_server ps cb))))"
proof (induction ps arbitrary: cb)
  case Nil
  show ?case by simp
next
  case (Cons p ps)
  show ?case
  proof (cases "cb_received cb")
    case True
    then show ?thesis by (simp add: run_server_received)
  next
    case False
    with Cons.IH [of "fst (do_POST p cb)"] show ?thesis
      by (simp add: Let_def)
  qed
qed

lemma run_server_first_valid:
  assumes "\<not> cb_received cb"
  shows "(case first_valid ps of
            None \<Rightarrow> \<not> cb_received (fst (run_server ps cb))
          | Some d \<Rightarrow> cb_received (fst (run_server ps cb)) \<and> cb_data (fst (run_server ps cb)) = d)
         \<and> length (fst (snd (run_server ps cb))) =
             (case first_valid ps of None \<Rightarrow> length ps | Some d \<Rightarrow> Suc (length (takeWhile is_bad ps)))"
  using assms
proof (induction ps arbitrary: cb)
  case Nil
  then show ?case by simp
next
  case (Cons p ps)
  show ?case
  proof (cases p)
    case (BadPost e)
    have "\<not> cb_received (fst (do_POST p cb))"
      using Cons.prems BadPost by (simp add: do_POST_def)
    from Cons.IH [OF this] Cons.prems BadPost show ?thesis
      by (simp add: Let_def split: option.splits)
  next
    case (JsonPost d)
    with Cons.prems show ?thesis
      by (simp add: Let_def do_POST_def run_server_received)
  qed
qed

lemma offered_Suc: "offered sched i (Suc n) = arrivals (sched i) @ offered sched (Suc i) n"
proof -
  have "[i..<i + Suc n] = i # [Suc i..<Suc i + n]"
    by (simp add: upt_conv_Cons)
  then show ?thesis by (simp add: offered_def)
qed

lemma offered_1: "offered sched i (Suc 0) = arrivals (sched i)"
  by (simp add: offered_def)

lemma wait_for_callback_loop_timeout:
  "\<not> int t < mw * 1000 \<Longrightarrow>
   wait_for_callback_loop mw sched i t cb =
     \<lparr>mailbox = fst (run_server (arrivals (sched i)) cb),
      replies = fst (snd (run_server (arrivals (sched i)) cb)), ticks = 1,
      trace = snd (snd (run_server (arrivals (sched i)) cb)) @
              [Print (MsgCallbackTimeout mw), Print (MsgFirewallTip WEBHOOK_PORT)],
      outcome = Inl (SystemExit 1)\<rparr>"
  by (subst wait_for_callback_loop.simps) (simp add: Let_def)

lemma wait_for_callback_loop_stop:
  assumes "int t < mw * 1000"
    and "snd (callback_check (fst (run_server (arrivals (sched i)) cb)) (t div 1000)) = Stop out"
  shows "wait_for_callback_loop mw sched i t cb =
     \<lparr>mailbox = fst (run_server (arrivals (sched i)) cb),
      replies = fst (snd (run_server (arrivals (sched i)) cb)), ticks = 1,
      trace = snd (snd (run_server (arrivals (sched i)) cb)) @
              fst (callback_check (fst (run_server (arrivals (sched i)) cb)) (t div 1000)),
      outcome = out\<rparr>"
  using assms by (subst wait_for_callback_loop.simps) (simp add: Let_def)

lemma wait_for_callback_loop_continue:
  assumes "int t < mw * 1000"
    and "snd (callback_check (fst (run_server (arrivals (sched i)) cb)) (t div 1000)) = Continue"
  shows "wait_for_callback_loop mw sched i t cb =
     (wait_for_callback_loop mw sched (Suc i) (t + 1000 + lag (sched i))
         (fst (run_server (arrivals (sched i)) cb)))
     \<lparr>replies := fst (snd (run_server (arrivals (sched i)) cb)) @
         replies (wait_for_callback_loop mw sched (Suc i) (t + 1000 + lag (sched i))
                    (fst (run_server (arrivals (sched i)) cb))),
      ticks := Suc (ticks (wait_for_callback_loop mw sched (Suc i) (t + 1000 + lag (sched i))
                    (fst (run_server (arrivals (sched i)) cb)))),
      trace := snd (snd (run_server (arrivals (sched i)) cb)) @
         fst (callback_check (fst (run_server (arrivals (sched i)) cb)) (t div 1000)) @
         trace (wait_for_callback_loop mw sched (Suc i) (t + 1000 + lag (sched i))
                    (fst (run_server (arrivals (sched i)) cb)))\<rparr>"
  using assms by (subst wait_for_callback_loop.simps) (simp add: Let_def)

lemma wait_for_callback_loop_mailbox:
  "mailbox (wait_for_callback_loop mw sched i t cb) =
     fst (run_server (offered sched i (ticks (wait_for_callback_loop mw sched i t cb))) cb) \<and>
   replies (wait_for_callback_loop mw sched i t cb) =
     fst (snd (run_server (offered sched i (ticks (wait_for_callback_loop mw sched i t cb))) cb))"
proof (induction "nat (mw * 1000 - int t)" arbitrary: i t cb rule: less_induct)
  case less
  let ?s = "run_server (arrivals (sched i)) cb"
  show ?case
  proof (cases "int t < mw * 1000")
    case False
    then show ?thesis
      by (simp add: wait_for_callback_loop_timeout offered_1)
  next
    case True
    show ?thesis
    proof (cases "snd (callback_check (fst ?s) (t div 1000))")
      case (Stop out)
      from wait_for_callback_loop_stop [where sched = sched and i = i and cb = cb, OF True Stop] show ?thesis
        by (simp add: offered_1)
    next
      case Continue
      let ?rest = "wait_for_callback_loop mw sched (Suc i) (t + 1000 + lag (sched i)) (fst ?s)"
      have "nat (mw * 1000 - int (t + 1000 + lag (sched i))) < nat (mw * 1000 - int t)"
        using True by simp
      from less.hyps [OF this, of "Suc i" "fst ?s"]
      have ih: "mailbox ?rest = fst (run_server (offered sched (Suc i) (ticks ?rest)) (fst ?s))"
        "replies ?rest = fst (snd (run_server (offered sched (Suc i) (ticks ?rest)) (fst ?s)))"
        by simp_all
      from wait_for_callback_loop_continue [where sched = sched and i = i and cb = cb, OF True Continue] ih
      show ?thesis
        using run_server_append [of "arrivals (sched i)" "offered sched (Suc i) (ticks ?rest)" cb]
        by (simp add: offered_Suc)
    qed
  qed
qed

lemma callback_check_returns:
  "snd (callback_check cb e) = Stop (Inr v) \<longrightarrow>
     cb_received cb \<and> dict_get (cb_data cb) ''code'' JNull = Inr (JNum 200) \<and>
     dict_get (cb_data cb) ''data'' (JObj []) = Inr v"
  by (simp add: callback_check_def split: sum.split)

lemma wait_for_callback_loop_returns:
  "outcome (wait_for_callback_loop mw sched i t cb) = Inr v \<Longrightarrow>
   \<exists>e. snd (callback_check (mailbox (wait_for_callback_loop mw sched i t cb)) e) = Stop (Inr v)"
proof (induction "nat (mw * 1000 - int t)" arbitrary: i t cb rule: less_induct)
  case less
  let ?s = "run_server (arrivals (sched i)) cb"
  show ?case
  proof (cases "int t < mw * 1000")
    case False
    with less.prems show ?thesis
      by (simp add: wait_for_callback_loop_timeout)
  next
    case True
    show ?thesis
    proof (cases "snd (callback_check (fst ?s) (t div 1000))")
      case (Stop out)
      from wait_for_callback_loop_stop [where sched = sched and i = i and cb = cb, OF True Stop] less.prems Stop show ?thesis
        by auto
    next
      case Continue
      let ?rest = "wait_for_callback_loop mw sched (Suc i) (t + 1000 + lag (sched i)) (fst ?s)"
      have m: "nat (mw * 1000 - int (t + 1000 + lag (sched i))) < nat (mw * 1000 - int t)"
        using True by simp
      from wait_for_callback_loop_continue [where sched = sched and i = i and cb = cb, OF True Continue] less.prems
      have "outcome ?rest = Inr v" by simp
      from less.hyps [OF m this] wait_for_callback_loop_continue [where sched = sched and i = i and cb = cb, OF True Continue]
      show ?thesis by simp
    qed
  qed
qed

lemma wait_for_callback_fields:
  "mailbox (wait_for_callback mw sched cb) = mailbox (wait_for_callback_loop mw sched 0 0 cb)"
  "replies (wait_for_callback mw sched cb) = replies (wait_for_callback_loop mw sched 0 0 cb)"
  "ticks (wait_for_callback mw sched cb) = ticks (wait_for_callback_loop mw sched 0 0 cb)"
  "outcome (wait_for_callback mw sched cb) = outcome (wait_for_callback_loop mw sched 0 0 cb)"
  by (simp_all add: wait_for_callback_def Let_def)

lemma check_at_0 [simp]: "check_at sched i 0 = 0"
  by (simp add: check_at_def)

lemma check_at_Suc:
  "check_at sched i (Suc k) = 1000 + lag (sched i) + check_at sched (Suc i) k"
  by (simp add: check_at_def sum.lessThan_Suc_shift del: sum.lessThan_Suc)

lemma first_valid_append:
  "first_valid (ps @ qs) = (case first_valid ps of None \<Rightarrow> first_valid qs | Some d \<Rightarrow> Some d)"
  by (induction ps rule: first_valid.induct) simp_all


lemma offered_snoc: "offered sched i (Suc k) = offered sched i k @ arrivals (sched (i + k))"
  by (simp add: offered_def)



lemma callback_check_received:
  "cb_received cb \<Longrightarrow>
   snd (callback_check cb e) =
     Stop (case dict_get (cb_data cb) ''code'' JNull of
             Inl x \<Rightarrow> Inl x
           | Inr code \<Rightarrow>
               if code = JNum 200 then dict_get (cb_data cb) ''data'' (JObj [])
               else Inl (SystemExit 1))"
  by (cases "cb_data cb") (simp_all add: callback_check_def)

lemma callback_check_not_received:
  "\<not> cb_received cb \<Longrightarrow> snd (callback_check cb e) = Continue"
  by (simp add: callback_check_def)

lemma wait_for_callback_loop_arrival:
  assumes "\<not> cb_received cb"
    and "first_valid (offered sched i k) = None"
    and "first_valid (arrivals (sched (i + k))) = Some d"
    and "int (t + check_at sched i k) < mw * 1000"
  shows "ticks (wait_for_callback_loop mw sched i t cb) = Suc k \<and>
         outcome (wait_for_callback_loop mw sched i t cb) =
           (case dict_get d ''code'' JNull of
              Inl x \<Rightarrow> Inl x
            | Inr code \<Rightarrow>
                if code = JNum 200 then dict_get d ''data'' (JObj []) else Inl (SystemExit 1))"
  using assms
proof (induction k arbitrary: i t cb)
  case 0
  let ?s = "run_server (arrivals (sched i)) cb"
  from "0.prems"(4) have live: "int t < mw * 1000" by simp
  from run_server_first_valid [OF "0.prems"(1), of "arrivals (sched i)"] "0.prems"(3)
  have r: "cb_received (fst ?s)" "cb_data (fst ?s) = d"
    by simp_all
  from callback_check_received [OF r(1), of "t div 1000", unfolded r(2)]
  have "snd (callback_check (fst ?s) (t div 1000)) =
     Stop (case dict_get d ''code'' JNull of
             Inl x \<Rightarrow> Inl x
           | Inr code \<Rightarrow>
               if code = JNum 200 then dict_get d ''data'' (JObj []) else Inl (SystemExit 1))"
    by simp
  from wait_for_callback_loop_stop [where sched = sched and i = i and cb = cb, OF live this]
  show ?case by simp
next
  case (Suc k)
  let ?s = "run_server (arrivals (sched i)) cb"
  let ?t' = "t + 1000 + lag (sched i)"
  let ?rest = "wait_for_callback_loop mw sched (Suc i) ?t' (fst ?s)"
  from Suc.prems(4) have live: "int t < mw * 1000" by simp
  from Suc.prems(2) have none: "first_valid (arrivals (sched i)) = None"
    and later: "first_valid (offered sched (Suc i) k) = None"
    by (simp_all add: offered_Suc first_valid_append split: option.splits)
  from run_server_first_valid [OF Suc.prems(1), of "arrivals (sched i)"] none
  have nr: "\<not> cb_received (fst ?s)"
    by simp
  then have c: "snd (callback_check (fst ?s) (t div 1000)) = Continue"
    by (rule callback_check_not_received)
  have arr: "first_valid (arrivals (sched (Suc i + k))) = Some d"
    using Suc.prems(3) by simp
  have clock: "int (?t' + check_at sched (Suc i) k) < mw * 1000"
    using Suc.prems(4) by (simp add: check_at_Suc add.assoc)
  from Suc.IH [OF nr later arr clock]
  have ih: "ticks ?rest = Suc k"
    "outcome ?rest =
       (case dict_get d ''code'' JNull of
          Inl x \<Rightarrow> Inl x
        | Inr code \<Rightarrow>
            if code = JNum 200 then dict_get d ''data'' (JObj []) else Inl (SystemExit 1))"
    by simp_all
  from wait_for_callback_loop_continue [where sched = sched and i = i and cb = cb, OF live c] ih
  show ?case by simp
qed

lemma wait_for_callback_loop_silence:
  assumes "\<not> cb_received cb"
    and "\<forall>n. first_valid (offered sched i n) = None"
  shows "outcome (wait_for_callback_loop mw sched i t cb) = Inl (SystemExit 1) \<and>
         \<not> cb_received (mailbox (wait_for_callback_loop mw sched i t cb))"
  using assms
proof (induction "nat (mw * 1000 - int t)" arbitrary: i t cb rule: less_induct)
  case less
  let ?s = "run_server (arrivals (sched i)) cb"
  from less.prems(2) have "first_valid (offered sched i (Suc 0)) = None"
    by blast
  then have none: "first_valid (arrivals (sched i)) = None"
    by (simp add: offered_1)
  from run_server_first_valid [OF less.prems(1), of "arrivals (sched i)"] none
  have nr: "\<not> cb_received (fst ?s)"
    by simp
  show ?case
  proof (cases "int t < mw * 1000")
    case False
    with nr show ?thesis
      by (simp add: wait_for_callback_loop_timeout)
  next
    case True
    let ?t' = "t + 1000 + lag (sched i)"
    let ?rest = "wait_for_callback_loop mw sched (Suc i) ?t' (fst ?s)"
    have c: "snd (callback_check (fst ?s) (t div 1000)) = Continue"
      using nr by (rule callback_check_not_received)
    have m: "nat (mw * 1000 - int ?t') < nat (mw * 1000 - int t)"
      using True by simp
    have later: "\<forall>n. first_valid (offered sched (Suc i) n) = None"
    proof
      fix n
      from less.prems(2) have "first_valid (offered sched i (Suc n)) = None"
        by blast
      then show "first_valid (offered sched (Suc i) n) = None"
        by (simp add: offered_Suc first_valid_append split: option.splits)
    qed
    from less.hyps [OF m nr later]
      wait_for_callback_loop_continue [where sched = sched and i = i and cb = cb, OF True c]
    show ?thesis by simp
  qed
qed


lemma wait_for_callback_arrival:
  assumes "\<not> cb_received cb"
    and "first_valid (offered sched 0 k) = None"
    and "first_valid (arrivals (sched k)) = Some d"
    and "int (check_at sched 0 k) < mw * 1000"
  shows "ticks (wait_for_callback mw sched cb) = Suc k"
    and "outcome (wait_for_callback mw sched cb) =
           (case dict_get d ''code'' JNull of
              Inl x \<Rightarrow> Inl x
            | Inr code \<Rightarrow>
                if code = JNum 200 then dict_get d ''data'' (JObj []) else Inl (SystemExit 1))"
    and "mailbox (wait_for_callback mw sched cb) = fst (run_server (offered sched 0 (Suc k)) cb)"
    and "replies (wait_for_callback mw sched cb) =
           fst (snd (run_server (offered sched 0 (Suc k)) cb))"
    and "first_valid (offered sched 0 (Suc k)) = Some d"
proof -
  let ?run = "wait_for_callback_loop mw sched 0 0 cb"
  have arr: "first_valid (arrivals (sched (0 + k))) = Some d"
    using assms(3) by simp
  have clock: "int (0 + check_at sched 0 k) < mw * 1000"
    using assms(4) by simp
  from wait_for_callback_loop_arrival [OF assms(1,2) arr clock]
  have t: "ticks ?run = Suc k"
    and o: "outcome ?run =
           (case dict_get d ''code'' JNull of
              Inl x \<Rightarrow> Inl x
            | Inr code \<Rightarrow>
                if code = JNum 200 then dict_get d ''data'' (JObj []) else Inl (SystemExit 1))"
    by simp_all
  from t show "ticks (wait_for_callback mw sched cb) = Suc k"
    by (simp add: wait_for_callback_fields)
  from o show "outcome (wait_for_callback mw sched cb) =
           (case dict_get d ''code'' JNull of
              Inl x \<Rightarrow> Inl x
            | Inr code \<Rightarrow>
                if code = JNum 200 then dict_get d ''data'' (JObj []) else Inl (SystemExit 1))"
    by (simp add: wait_for_callback_fields)
  from wait_for_callback_loop_mailbox [of mw sched 0 0 cb] t
  show "mailbox (wait_for_callback mw sched cb) = fst (run_server (offered sched 0 (Suc k)) cb)"
    and "replies (wait_for_callback mw sched cb) =
           fst (snd (run_server (offered sched 0 (Suc k)) cb))"
    by (simp_all add: wait_for_callback_fields)
  from assms(2,3) show "first_valid (offered sched 0 (Suc k)) = Some d"
    by (simp add: offered_snoc first_valid_append)
qed

text \<open>
  C2, as amended. The listener takes as a notification any post whose body parses as
  JSON, whatever its structure. Let the posts offered before tick \<open>k\<close> all fail to parse,
  let \<open>d\<close> be the content of the first post of tick \<open>k\<close> that parses, and let the waiter's
  check after tick \<open>k\<close> fall within \<^verbatim>\<open>max_wait\<close>. Then the wait ends at that check with \<open>d\<close>
  stored; the waiter returns the \<^verbatim>\<open>data\<close> entry of \<open>d\<close> when \<open>d\<close> is an object with \<^verbatim>\<open>code\<close> 200,
  leaves through \<^verbatim>\<open>sys.exit(1)\<close> when it is an object with another code, and raises
  \<^verbatim>\<open>AttributeError\<close> when it is no object; the listener has replied to the posts up to that
  one and to none after it; and whatever is posted later leaves the mailbox as it is and
  gets no reply.
\<close>

theorem first_parsed_notification_wins:
  assumes "\<not> cb_received cb"
    and "first_valid (offered sched 0 k) = None"
    and "first_valid (arrivals (sched k)) = Some d"
    and "int (check_at sched 0 k) < max_wait * 1000"
  shows "ticks (wait_for_callback max_wait sched cb) = Suc k
       \<and> cb_received (mailbox (wait_for_callback max_wait sched cb))
       \<and> cb_data (mailbox (wait_for_callback max_wait sched cb)) = d
       \<and> outcome (wait_for_callback max_wait sched cb) =
           (case dict_get d ''code'' JNull of
              Inl x \<Rightarrow> Inl x
            | Inr code \<Rightarrow>
                if code = JNum 200 then dict_get d ''data'' (JObj []) else Inl (SystemExit 1))
       \<and> length (replies (wait_for_callback max_wait sched cb)) =
           Suc (length (takeWhile is_bad (offered sched 0 (Suc k))))
       \<and> (\<forall>ps. run_server ps (mailbox (wait_for_callback max_wait sched cb)) =
                (mailbox (wait_for_callback max_wait sched cb), [], []))"
proof -
  let ?run = "wait_for_callback max_wait sched cb"
  let ?ps = "offered sched 0 (Suc k)"
  note a = wait_for_callback_arrival [OF assms]
  from run_server_first_valid [OF assms(1), of ?ps] a(5)
  have r: "cb_received (fst (run_server ?ps cb))" "cb_data (fst (run_server ?ps cb)) = d"
    "length (fst (snd (run_server ?ps cb))) = Suc (length (takeWhile is_bad ?ps))"
    by simp_all
  have late: "\<forall>ps. run_server ps (mailbox ?run) = (mailbox ?run, [], [])"
    using a(3) r(1) by (simp add: run_server_received)
  from a(1,2) r late show ?thesis
    by (simp add: a(3,4))
qed

theorem first_parsed_notification_wins_witness:
  "wait_for_callback 300
      (schedule [quiet, \<lparr>arrivals = [BadPost ''Expecting value'', JsonPost (notification [track_a]),
                                     JsonPost (notification [track_b])], lag = 250\<rparr>])
      callback_data_init =
    \<lparr>mailbox = \<lparr>cb_received = True, cb_data = notification [track_a],
                 cb_error = JStr ''Expecting value''\<rparr>,
     replies = [Reply 500 None, Reply 200 (Some (JObj [(''status'', JStr ''ok'')]))],
     ticks = 2,
     trace = [Print MsgWaiting, Print (MsgWaitingCallback 0 0), Sleep 1,
              Print (MsgCallbackError ''Expecting value''), Print MsgCallbackReceived,
              Print MsgCallbackCompleted],
     outcome = Inr (JArr [track_a])\<rparr>"
proof -
  let ?sched = "schedule [quiet, \<lparr>arrivals = [BadPost ''Expecting value'',
      JsonPost (notification [track_a]), JsonPost (notification [track_b])], lag = 250\<rparr>]"
  have a: "\<not> cb_received callback_data_init"
    by (simp add: callback_data_init_def)
  have b: "first_valid (offered ?sched 0 1) = None"
    by (simp add: offered_def schedule_def quiet_def)
  have c: "first_valid (arrivals (?sched 1)) = Some (notification [track_a])"
    by (simp add: schedule_def)
  have d: "int (check_at ?sched 0 1) < 300 * 1000"
    by (simp add: check_at_def schedule_def quiet_def)
  from first_parsed_notification_wins [OF a b c d]
  have "cb_data (mailbox (wait_for_callback 300 ?sched callback_data_init)) = notification [track_a]"
    by blast
  then show ?thesis
    by (simp add: callback_defs)
qed

text \<open>
  C2 as stated lets the first well-formed notification win. An empty JSON list posted
  first is stored, the waiter raises on it, and the notification of the expected
  structure that follows is never handled.
\<close>

theorem first_well_formed_notification_counterexample:
  "first_expected [JsonPost (JArr []), JsonPost (notification [track_a])]
     = Some (notification [track_a])
   \<and> wait_for_callback 300
       (schedule [\<lparr>arrivals = [JsonPost (JArr []), JsonPost (notification [track_a])], lag = 0\<rparr>])
       callback_data_init =
     \<lparr>mailbox = \<lparr>cb_received = True, cb_data = JArr [], cb_error = JNull\<rparr>,
      replies = [Reply 200 (Some (JObj [(''status'', JStr ''ok'')]))],
      ticks = 1,
      trace = [Print MsgWaiting, Print MsgCallbackReceived],
      outcome = Inl AttributeError\<rparr>"
  by (simp add: callback_defs)




section \<open>The listening socket\<close>

text \<open>
  C8, as amended. The script never closes the listening socket: at every point where
  \<^verbatim>\<open>main\<close> can stop, the server object still has its socket open. What releases it is the
  end of the process alone. On a timeout (no post that parses arrives) and on a remote
  failure (the first post that parses, arriving within the budget, is an object with a
  code other than 200) \<^verbatim>\<open>wait_for_callback\<close> leaves through \<^verbatim>\<open>sys.exit(1)\<close>, the process ends
  with status 1 and the socket is gone with it; the same holds for any other exception
  and for an empty result. On success (code 200 and a non-empty \<^verbatim>\<open>data\<close>) the process goes
  on to save and download the artifacts with the socket still listening.
\<close>

theorem listening_socket_released_only_by_exit:
  "socket_open (fst (main_hard_trap True (Some task_id) sched))
   \<and> server_port (fst (main_hard_trap True (Some task_id) sched)) = WEBHOOK_PORT
   \<and> (case outcome (wait_for_callback 300 sched callback_data_init) of
         Inl e \<Rightarrow>
           snd (main_hard_trap True (Some task_id) sched) = WaitRaised e
           \<and> exit_status (snd (main_hard_trap True (Some task_id) sched)) = Some (exit_code e)
           \<and> \<not> still_listening (main_hard_trap True (Some task_id) sched)
       | Inr audio_info \<Rightarrow>
           if truthy audio_info
           then snd (main_hard_trap True (Some task_id) sched) = Downloading audio_info
                \<and> still_listening (main_hard_trap True (Some task_id) sched)
           else snd (main_hard_trap True (Some task_id) sched) = NoAudio
                \<and> exit_status (snd (main_hard_trap True (Some task_id) sched)) = Some 1
                \<and> \<not> still_listening (main_hard_trap True (Some task_id) sched))
   \<and> ((\<forall>n. first_valid (offered sched 0 n) = None) \<longrightarrow>
         snd (main_hard_trap True (Some task_id) sched) = WaitRaised (SystemExit 1)
         \<and> exit_status (snd (main_hard_trap True (Some task_id) sched)) = Some 1
         \<and> \<not> still_listening (main_hard_trap True (Some task_id) sched))
   \<and> (\<forall>k d code. first_valid (offered sched 0 k) = None
         \<and> first_valid (arrivals (sched k)) = Some d
         \<and> int (check_at sched 0 k) < 300 * 1000
         \<and> dict_get d ''code'' JNull = Inr code \<and> code \<noteq> JNum 200 \<longrightarrow>
         snd (main_hard_trap True (Some task_id) sched) = WaitRaised (SystemExit 1)
         \<and> exit_status (snd (main_hard_trap True (Some task_id) sched)) = Some 1
         \<and> \<not> still_listening (main_hard_trap True (Some task_id) sched))
   \<and> (\<forall>k d audio_info. first_valid (offered sched 0 k) = None
         \<and> first_valid (arrivals (sched k)) = Some d
         \<and> int (check_at sched 0 k) < 300 * 1000
         \<and> dict_get d ''code'' JNull = Inr (JNum 200)
         \<and> dict_get d ''data'' (JObj []) = Inr audio_info \<and> truthy audio_info \<longrightarrow>
         snd (main_hard_trap True (Some task_id) sched) = Downloading audio_info
         \<and> still_listening (main_hard_trap True (Some task_id) sched))"
proof -
  let ?m = "main_hard_trap True (Some task_id) sched"
  let ?run = "wait_for_callback 300 sched callback_data_init"
  have fresh: "\<not> cb_received callback_data_init"
    by (simp add: callback_data_init_def)
  have server: "socket_open (fst ?m)" "server_port (fst ?m) = WEBHOOK_PORT"
    by (simp_all add: main_hard_trap_def start_webhook_server_def Let_def split: sum.split)
  have raised: "\<And>e. outcome ?run = Inl e \<Longrightarrow>
      snd ?m = WaitRaised e \<and> exit_status (snd ?m) = Some (exit_code e) \<and> \<not> still_listening ?m"
    by (simp add: main_hard_trap_def still_listening_def exit_status_def Let_def)
  have returned: "\<And>a. outcome ?run = Inr a \<Longrightarrow> truthy a \<Longrightarrow>
      snd ?m = Downloading a \<and> still_listening ?m"
    by (simp add: main_hard_trap_def start_webhook_server_def still_listening_def
        exit_status_def Let_def)
  have general: "case outcome ?run of
         Inl e \<Rightarrow>
           snd ?m = WaitRaised e \<and> exit_status (snd ?m) = Some (exit_code e)
           \<and> \<not> still_listening ?m
       | Inr audio_info \<Rightarrow>
           if truthy audio_info
           then snd ?m = Downloading audio_info \<and> still_listening ?m
           else snd ?m = NoAudio \<and> exit_status (snd ?m) = Some 1 \<and> \<not> still_listening ?m"
    by (simp add: main_hard_trap_def start_webhook_server_def still_listening_def
        exit_status_def Let_def split: sum.split)
  have timeout: "(\<forall>n. first_valid (offered sched 0 n) = None) \<longrightarrow>
         snd ?m = WaitRaised (SystemExit 1) \<and> exit_status (snd ?m) = Some 1
         \<and> \<not> still_listening ?m"
  proof
    assume "\<forall>n. first_valid (offered sched 0 n) = None"
    with fresh have "outcome (wait_for_callback_loop 300 sched 0 0 callback_data_init) =
        Inl (SystemExit 1)"
      using wait_for_callback_loop_silence by blast
    then have "outcome ?run = Inl (SystemExit 1)"
      by (simp add: wait_for_callback_fields)
    from raised [OF this] show "snd ?m = WaitRaised (SystemExit 1)
        \<and> exit_status (snd ?m) = Some 1 \<and> \<not> still_listening ?m"
      by (simp add: exit_code_def exit_status_def)
  qed
  have failure: "\<forall>k d code. first_valid (offered sched 0 k) = None
         \<and> first_valid (arrivals (sched k)) = Some d
         \<and> int (check_at sched 0 k) < 300 * 1000
         \<and> dict_get d ''code'' JNull = Inr code \<and> code \<noteq> JNum 200 \<longrightarrow>
         snd ?m = WaitRaised (SystemExit 1) \<and> exit_status (snd ?m) = Some 1
         \<and> \<not> still_listening ?m"
  proof (intro allI impI, elim conjE)
    fix k d code
    assume h: "first_valid (offered sched 0 k) = None"
      "first_valid (arrivals (sched k)) = Some d"
      "int (check_at sched 0 k) < 300 * 1000"
      and c: "dict_get d ''code'' JNull = Inr code" "code \<noteq> JNum 200"
    from wait_for_callback_arrival(2) [OF fresh h] c
    have "outcome ?run = Inl (SystemExit 1)"
      by simp
    from raised [OF this] show "snd ?m = WaitRaised (SystemExit 1)
        \<and> exit_status (snd ?m) = Some 1 \<and> \<not> still_listening ?m"
      by (simp add: exit_code_def exit_status_def)
  qed
  have success: "\<forall>k d audio_info. first_valid (offered sched 0 k) = None
         \<and> first_valid (arrivals (sched k)) = Some d
         \<and> int (check_at sched 0 k) < 300 * 1000
         \<and> dict_get d ''code'' JNull = Inr (JNum 200)
         \<and> dict_get d ''data'' (JObj []) = Inr audio_info \<and> truthy audio_info \<longrightarrow>
         snd ?m = Downloading audio_info \<and> still_listening ?m"
  proof (intro allI impI, elim conjE)
    fix k d audio_info
    assume h: "first_valid (offered sched 0 k) = None"
      "first_valid (arrivals (sched k)) = Some d"
      "int (check_at sched 0 k) < 300 * 1000"
      and c: "dict_get d ''code'' JNull = Inr (JNum 200)"
      "dict_get d ''data'' (JObj []) = Inr audio_info" and t: "truthy audio_info"
    from wait_for_callback_arrival(2) [OF fresh h] c
    have "outcome ?run = Inr audio_info"
      by simp
    from returned [OF this t] show "snd ?m = Downloading audio_info \<and> still_listening ?m" .
  qed
  from server general timeout failure success show ?thesis
    by (intro conjI)
qed

text \<open>
  C8 as stated has the socket closed once a result is obtained. With one notification
  of one artifact, \<^verbatim>\<open>wait_for_callback\<close> returns it and \<^verbatim>\<open>main\<close> goes on to the download with
  the socket still listening.
\<close>

theorem socket_closed_on_success_counterexample:
  "main_hard_trap True (Some ''t'')
     (schedule [quiet, \<lparr>arrivals = [JsonPost (notification [track_a])], lag = 0\<rparr>]) =
     (\<lparr>server_port = 8877, socket_open = True\<rparr>, Downloading (JArr [track_a]))
   \<and> still_listening (main_hard_trap True (Some ''t'')
     (schedule [quiet, \<lparr>arrivals = [JsonPost (notification [track_a])], lag = 0\<rparr>]))"
  by (simp add: main_hard_trap_def still_listening_def exit_status_def callback_defs)

theorem listening_socket_released_only_by_exit_witness:
  "main_hard_trap True (Some ''t'')
     (schedule [\<lparr>arrivals = [JsonPost (JObj [(''code'', JNum 500), (''msg'', JStr ''boom'')])],
                 lag = 0\<rparr>]) =
     (\<lparr>server_port = 8877, socket_open = True\<rparr>, WaitRaised (SystemExit 1))
   \<and> \<not> still_listening (main_hard_trap True (Some ''t'')
     (schedule [\<lparr>arrivals = [JsonPost (JObj [(''code'', JNum 500), (''msg'', JStr ''boom'')])],
                 lag = 0\<rparr>]))"
proof -
  let ?sched = "schedule [\<lparr>arrivals = [JsonPost (JObj [(''code'', JNum 500),
      (''msg'', JStr ''boom'')])], lag = 0\<rparr>]"
  let ?d = "JObj [(''code'', JNum 500), (''msg'', JStr ''boom'')]"
  have h: "first_valid (offered ?sched 0 0) = None
         \<and> first_valid (arrivals (?sched 0)) = Some ?d
         \<and> int (check_at ?sched 0 0) < 300 * 1000
         \<and> dict_get ?d ''code'' JNull = Inr (JNum 500) \<and> JNum 500 \<noteq> JNum 200"
    by (simp add: offered_def schedule_def)
  from listening_socket_released_only_by_exit [of "''t''" ?sched]
  have "\<forall>k d code. first_valid (offered ?sched 0 k) = None
         \<and> first_valid (arrivals (?sched k)) = Some d
         \<and> int (check_at ?sched 0 k) < 300 * 1000
         \<and> dict_get d ''code'' JNull = Inr code \<and> code \<noteq> JNum 200 \<longrightarrow>
         snd (main_hard_trap True (Some ''t'') ?sched) = WaitRaised (SystemExit 1)
         \<and> exit_status (snd (main_hard_trap True (Some ''t'') ?sched)) = Some 1
         \<and> \<not> still_listening (main_hard_trap True (Some ''t'') ?sched)"
    by (elim conjE)
  with h have "snd (main_hard_trap True (Some ''t'') ?sched) = WaitRaised (SystemExit 1)
         \<and> \<not> still_listening (main_hard_trap True (Some ''t'') ?sched)"
    by blast
  moreover have "fst (main_hard_trap True (Some ''t'') ?sched) =
      \<lparr>server_port = 8877, socket_open = True\<rparr>"
    by (simp add: main_hard_trap_def start_webhook_server_def WEBHOOK_PORT_def Let_def
        split: sum.split)
  ultimately show ?thesis
    by (simp add: prod_eq_iff)
qed

section \<open>Claims about SunoPersona\<close>









end
